theory Spec2Isabelle
  imports Complex_Main
begin

section \<open>Tax computation of the 1040 form (services/pdfGeneration, generate1040Form)\<close>

text \<open>
  The function \<open>generate1040Form\<close> draws a PDF; the amounts it prints are computed inline
  from the request data. The model keeps the computed line items and leaves the drawing
  out.
\<close>

subsection \<open>Numbers\<close>

text \<open>
  A TypeScript \<open>number\<close> is an IEEE 754 double: a finite value, given here by the rational
  it denotes, an infinity or \<open>NaN\<close>. The two zeros are one value: the code never divides,
  and \<open>===\<close>, \<open><=\<close>, \<open>||\<close>, \<open>Math.max\<close> and \<open>Math.round\<close> do not tell them apart.
\<close>

datatype jsnum = Num rat | PosInf | NegInf | NaN

text \<open>The position of the leading bit of a positive integer.\<close>

function ilog2i :: "int \<Rightarrow> int" where
  "ilog2i n = (if n \<le> 1 then 0 else 1 + ilog2i (n div 2))"
  by auto
termination
  by (relation "measure nat") auto

declare ilog2i.simps [simp del]

text \<open>The exponent of a positive rational \<open>x\<close>: the \<open>e\<close> with \<open>2 ^ e \<le> x < 2 ^ (e + 1)\<close>.\<close>

definition ilog2 :: "rat \<Rightarrow> int" where
  "ilog2 x =
     (case quotient_of x of (p, q) \<Rightarrow>
        let d = ilog2i p - ilog2i q
        in if x < 2 powi d then d - 1 else d)"

text \<open>The nearest integer, a tie going to the even one.\<close>

definition roundTiesEven :: "rat \<Rightarrow> int" where
  "roundTiesEven y =
     (let f = \<lfloor>y\<rfloor>; r = y - of_int f
      in if r < 1 / 2 then f else if 1 / 2 < r then f + 1 else if even f then f else f + 1)"

text \<open>
  Rounding of an exact result to the nearest double, ties to even: 53 significant bits,
  the subnormal grid of \<open>2 ^ -1074\<close> at the bottom, an infinity from \<open>2 ^ 1024 - 2 ^ 970\<close>
  on. Every arithmetic operation of the code is the exact operation followed by this
  rounding.
\<close>

definition rnd :: "rat \<Rightarrow> jsnum" where
  "rnd x =
     (if x = 0 then Num 0
      else let e = ilog2 \<bar>x\<bar>;
               q = max (e - 52) (- 1074);
               m = roundTiesEven (\<bar>x\<bar> / 2 powi q)
           in if 1024 \<le> e \<or> (e = 1023 \<and> m = 9007199254740992)
              then (if 0 < x then PosInf else NegInf)
              else Num (sgn x * (of_int m * 2 powi q)))"

text \<open>A decimal literal of the source, such as \<open>0.10\<close>, denotes the double nearest to it.\<close>

definition lit :: "rat \<Rightarrow> jsnum" where
  "lit r = rnd r"

fun jsNeg :: "jsnum \<Rightarrow> jsnum" where
  "jsNeg (Num x) = Num (- x)"
| "jsNeg PosInf = NegInf"
| "jsNeg NegInf = PosInf"
| "jsNeg NaN = NaN"

text \<open>\<open>a + b\<close>\<close>

fun jsAdd :: "jsnum \<Rightarrow> jsnum \<Rightarrow> jsnum" where
  "jsAdd (Num x) (Num y) = rnd (x + y)"
| "jsAdd NaN b = NaN"
| "jsAdd a NaN = NaN"
| "jsAdd PosInf NegInf = NaN"
| "jsAdd NegInf PosInf = NaN"
| "jsAdd PosInf b = PosInf"
| "jsAdd a PosInf = PosInf"
| "jsAdd NegInf b = NegInf"
| "jsAdd a NegInf = NegInf"

text \<open>\<open>a - b\<close>\<close>

definition jsSub :: "jsnum \<Rightarrow> jsnum \<Rightarrow> jsnum" where
  "jsSub a b = jsAdd a (jsNeg b)"

fun isNegative :: "jsnum \<Rightarrow> bool" where
  "isNegative (Num x) = (x < 0)"
| "isNegative NegInf = True"
| "isNegative PosInf = False"
| "isNegative NaN = False"

text \<open>\<open>a * b\<close>: an infinity times zero is \<open>NaN\<close>.\<close>

fun jsMul :: "jsnum \<Rightarrow> jsnum \<Rightarrow> jsnum" where
  "jsMul (Num x) (Num y) = rnd (x * y)"
| "jsMul a b =
     (if a = NaN \<or> b = NaN \<or> a = Num 0 \<or> b = Num 0 then NaN
      else if isNegative a = isNegative b then PosInf else NegInf)"

text \<open>\<open>a <= b\<close>: false when either side is \<open>NaN\<close>.\<close>

fun jsLe :: "jsnum \<Rightarrow> jsnum \<Rightarrow> bool" where
  "jsLe (Num x) (Num y) = (x \<le> y)"
| "jsLe NaN b = False"
| "jsLe a NaN = False"
| "jsLe NegInf b = True"
| "jsLe a PosInf = True"
| "jsLe PosInf b = False"
| "jsLe a NegInf = False"

text \<open>\<open>Math.max(0, a)\<close>\<close>

fun mathMax0 :: "jsnum \<Rightarrow> jsnum" where
  "mathMax0 (Num x) = Num (max 0 x)"
| "mathMax0 PosInf = PosInf"
| "mathMax0 NegInf = Num 0"
| "mathMax0 NaN = NaN"

text \<open>
  \<open>Math.round\<close>: the nearest integer, a tie going up. It is exact: the result is a double
  whenever the argument is one.
\<close>

fun mathRound :: "jsnum \<Rightarrow> jsnum" where
  "mathRound (Num x) = Num (of_int \<lfloor>x + 1 / 2\<rfloor>)"
| "mathRound PosInf = PosInf"
| "mathRound NegInf = NegInf"
| "mathRound NaN = NaN"

text \<open>
  \<open>x || y\<close> on an optional number: \<open>y\<close> when \<open>x\<close> is undefined, 0 or \<open>NaN\<close> (the falsy
  numbers), \<open>x\<close> otherwise.
\<close>

definition orElse :: "jsnum option \<Rightarrow> jsnum \<Rightarrow> jsnum" where
  "orElse x y = (case x of None \<Rightarrow> y | Some v \<Rightarrow> if v = Num 0 \<or> v = NaN then y else v)"

subsection \<open>The line items\<close>

text \<open>
  The request data, as the interface \<open>Form1040Data\<close> declares it. An optional field
  (\<open>otherIncome?: number\<close>) is an \<open>option\<close>, \<open>None\<close> when the property is absent. A
  numeric field of a request holds a double, that is an infinity, \<open>NaN\<close> or a \<open>Num x\<close>
  with \<open>rnd x = Num x\<close>; the properties below hold for every \<open>x\<close>.
\<close>

record Form1040Data =
  firstName :: string
  lastName :: string
  ssn :: string
  filingStatus :: string
  address :: string
  city :: string
  state :: string
  zip_f :: string
  wages :: jsnum
  interest :: jsnum
  dividends :: jsnum
  capitalGains :: jsnum
  otherIncome :: "jsnum option"
  adjustments :: "jsnum option"
  deductions :: "jsnum option"

type_synonym lineItem = "string \<times> jsnum"

definition incomeItems :: "Form1040Data \<Rightarrow> lineItem list" where
  "incomeItems d =
     [(''1. Wages, salaries, tips'', wages d),
      (''2. Tax-exempt interest'', Num 0),
      (''3a. Qualified dividends'', dividends d),
      (''3b. Ordinary dividends'', dividends d),
      (''4a. IRA distributions'', Num 0),
      (''4b. Taxable amount'', Num 0),
      (''5a. Pensions and annuities'', Num 0),
      (''5b. Taxable amount'', Num 0),
      (''6a. Social security benefits'', Num 0),
      (''6b. Taxable amount'', Num 0),
      (''7. Capital gain or (loss)'', capitalGains d),
      (''8. Other income'', orElse (otherIncome d) (Num 0)),
      (''9. Total income'',
         jsAdd (jsAdd (jsAdd (jsAdd (wages d) (interest d)) (dividends d)) (capitalGains d))
           (orElse (otherIncome d) (Num 0)))]"

definition adjustedItems :: "Form1040Data \<Rightarrow> lineItem list" where
  "adjustedItems d =
     [(''10. Adjustments to income'', orElse (adjustments d) (Num 0)),
      (''11. Adjusted gross income'',
         jsSub
           (jsAdd (jsAdd (jsAdd (jsAdd (wages d) (interest d)) (dividends d)) (capitalGains d))
              (orElse (otherIncome d) (Num 0)))
           (orElse (adjustments d) (Num 0)))]"

text \<open>The ternary on the filing status.\<close>

definition standardDeduction :: "Form1040Data \<Rightarrow> jsnum" where
  "standardDeduction d =
     (if filingStatus d = ''single'' \<or> filingStatus d = ''married_separate'' then Num 12950
      else if filingStatus d = ''head_of_household'' then Num 19400
      else Num 25900)"

definition taxableIncome :: "Form1040Data \<Rightarrow> jsnum" where
  "taxableIncome d =
     mathMax0 (jsSub (snd (adjustedItems d ! 1)) (orElse (deductions d) (standardDeduction d)))"

text \<open>
  The chain of comparisons on the taxable income. The literals 10275, 1027.50 and the
  like are doubles and denote themselves; the rates are not.
\<close>

definition bracketTax :: "jsnum \<Rightarrow> jsnum" where
  "bracketTax t =
     (if jsLe t (Num 10275) then jsMul t (lit (10 / 100))
      else if jsLe t (Num 41775)
        then jsAdd (Num 1027.50) (jsMul (jsSub t (Num 10275)) (lit (12 / 100)))
      else if jsLe t (Num 89075)
        then jsAdd (Num 4807.50) (jsMul (jsSub t (Num 41775)) (lit (22 / 100)))
      else if jsLe t (Num 170050)
        then jsAdd (Num 15213.50) (jsMul (jsSub t (Num 89075)) (lit (24 / 100)))
      else if jsLe t (Num 215950)
        then jsAdd (Num 34647.50) (jsMul (jsSub t (Num 170050)) (lit (32 / 100)))
      else if jsLe t (Num 539900)
        then jsAdd (Num 49335.50) (jsMul (jsSub t (Num 215950)) (lit (35 / 100)))
      else jsAdd (Num 162718) (jsMul (jsSub t (Num 539900)) (lit (37 / 100))))"

definition estimatedTax :: "Form1040Data \<Rightarrow> jsnum" where
  "estimatedTax d = bracketTax (taxableIncome d)"

definition taxItems :: "Form1040Data \<Rightarrow> lineItem list" where
  "taxItems d =
     [(''12. Standard deduction or itemized deductions'',
         orElse (deductions d) (standardDeduction d)),
      (''13. Qualified business income deduction'', Num 0),
      (''14. Taxable income'', taxableIncome d),
      (''15. Tax'', mathRound (estimatedTax d))]"

text \<open>
  The derived amounts, read off the line items by position, as the source itself reads
  \<open>adjustedItems[1].amount\<close>: the total income is the last income item, the deduction
  used the first tax item, the tax the last one.
\<close>

definition totalIncome :: "Form1040Data \<Rightarrow> jsnum" where
  "totalIncome d = snd (incomeItems d ! 12)"

definition adjustedGrossIncome :: "Form1040Data \<Rightarrow> jsnum" where
  "adjustedGrossIncome d = snd (adjustedItems d ! 1)"

definition deductionUsed :: "Form1040Data \<Rightarrow> jsnum" where
  "deductionUsed d = snd (taxItems d ! 0)"

definition taxPrinted :: "Form1040Data \<Rightarrow> jsnum" where
  "taxPrinted d = snd (taxItems d ! 3)"

section \<open>JSON values as JavaScript sees them\<close>

text \<open>
  What \<open>JSON.parse\<close> returns. An object is the list of its own properties in the order
  \<open>Object.entries\<close> enumerates them. A number is given by the rational it denotes: the
  route tests it for truth and copies it, and does no arithmetic on it (a literal too
  large for a double, which parses to an infinity, is left out).
\<close>

datatype jsvalue =
    JNull
  | JBool bool
  | JNum rat
  | JStr string
  | JArr "jsvalue list"
  | JObj "(string \<times> jsvalue) list"

text \<open>JavaScript truthiness: \<open>null\<close>, \<open>false\<close>, \<open>0\<close> and \<open>""\<close> are falsy.\<close>

fun truthy :: "jsvalue \<Rightarrow> bool" where
  "truthy JNull = False"
| "truthy (JBool b) = b"
| "truthy (JNum n) = (n \<noteq> 0)"
| "truthy (JStr s) = (s \<noteq> [])"
| "truthy (JArr vs) = True"
| "truthy (JObj kvs) = True"

definition digitChar :: "nat \<Rightarrow> char" where
  "digitChar n = ''0123456789'' ! n"

fun showNat :: "nat \<Rightarrow> string" where
  "showNat n = (if n < 10 then [digitChar n] else showNat (n div 10) @ [digitChar (n mod 10)])"

declare showNat.simps [simp del]

text \<open>
  \<open>Object.entries\<close>: the properties of an object, the indexed elements of an array, the
  indexed characters of a string, nothing for a number or a boolean. On \<open>null\<close> it throws;
  the merge loop calls it on truthy values only, so that case is never reached there.
\<close>

fun objectEntries :: "jsvalue \<Rightarrow> (string \<times> jsvalue) list" where
  "objectEntries (JObj kvs) = kvs"
| "objectEntries (JArr vs) = zip (map showNat [0..<length vs]) vs"
| "objectEntries (JStr s) = zip (map showNat [0..<length s]) (map (\<lambda>c. JStr [c]) s)"
| "objectEntries (JNum n) = []"
| "objectEntries (JBool b) = []"
| "objectEntries JNull = []"

section \<open>Extraction of one document (routes/documents, POST /extract-tax-info)\<close>

record processedDoc =
  documentId :: string
  filename :: string
  analysis :: "jsvalue option"
  error :: "string option"
  rawText :: "string option"

text \<open>The result of \<open>String.prototype.match\<close> with a non-global regular expression.\<close>

record regexMatch =
  whole :: string
  group1 :: "string option"

text \<open>The leftmost occurrence of a pattern: the text before it and the text after it.\<close>

fun splitOn :: "string \<Rightarrow> string \<Rightarrow> (string \<times> string) option" where
  "splitOn pat [] = (if pat = [] then Some ([], []) else None)"
| "splitOn pat (c # cs) =
     (if take (length pat) (c # cs) = pat then Some ([], drop (length pat) (c # cs))
      else map_option (\<lambda>(before, after). (c # before, after)) (splitOn pat cs))"

definition fenceOpen :: string where
  "fenceOpen = ''```json'' @ [CHR 0x0A]"

definition fenceClose :: string where
  "fenceClose = [CHR 0x0A] @ ''```''"

text \<open>
  \<open>/```json\n([\s\S]*?)\n```/\<close>: the leftmost opening fence that has a closing fence
  after it; the lazy group stops at the first closing fence.
\<close>

definition matchFenced :: "string \<Rightarrow> regexMatch option" where
  "matchFenced text =
     (case splitOn fenceOpen text of
        None \<Rightarrow> None
      | Some (before, rest) \<Rightarrow>
          (case splitOn fenceClose rest of
             None \<Rightarrow> None
           | Some (grp, after) \<Rightarrow>
               Some \<lparr>whole = fenceOpen @ grp @ fenceClose, group1 = Some grp\<rparr>))"

text \<open>
  \<open>/{[\s\S]*}/\<close>: from the first opening brace to the last closing brace after it (the
  star is greedy); there is no capture group.
\<close>

definition matchBraces :: "string \<Rightarrow> regexMatch option" where
  "matchBraces text =
     (case dropWhile (\<lambda>c. c \<noteq> CHR ''{'') text of
        [] \<Rightarrow> None
      | c # rest \<Rightarrow>
          (if CHR ''}'' \<in> set rest
           then Some \<lparr>whole = c # rev (dropWhile (\<lambda>c. c \<noteq> CHR ''}'') (rev rest)), group1 = None\<rparr>
           else None))"

definition jsonMatch :: "string \<Rightarrow> regexMatch option" where
  "jsonMatch text = (case matchFenced text of Some m \<Rightarrow> Some m | None \<Rightarrow> matchBraces text)"

text \<open>\<open>jsonMatch[1] || jsonMatch[0]\<close>: an absent or empty group falls back to the whole match.\<close>

definition jsonStr :: "regexMatch \<Rightarrow> string" where
  "jsonStr m = (case group1 m of None \<Rightarrow> whole m | Some g \<Rightarrow> if g = [] then whole m else g)"

text \<open>Characters are code units below 256; these are the ones \<open>trim\<close> removes.\<close>

definition isWhiteSpace :: "char \<Rightarrow> bool" where
  "isWhiteSpace c =
     (c \<in> set [CHR 0x09, CHR 0x0A, CHR 0x0B, CHR 0x0C, CHR 0x0D, CHR 0x20, CHR 0xA0])"

definition trim :: "string \<Rightarrow> string" where
  "trim s = rev (dropWhile isWhiteSpace (rev (dropWhile isWhiteSpace s)))"

definition fallbackAnalysis :: jsvalue where
  "fallbackAnalysis = JObj [(''error'', JStr ''Could not parse structured data from document'')]"

text \<open>
  The two values the inner \<open>try\<close> block returns: the document with its analysis, and,
  from the \<open>catch\<close>, the document with an error and the raw text.
\<close>

definition analysedDoc :: "string \<Rightarrow> string \<Rightarrow> jsvalue \<Rightarrow> processedDoc" where
  "analysedDoc docId fname analysisData =
     \<lparr>documentId = docId, filename = fname, analysis = Some analysisData,
      error = None, rawText = None\<rparr>"

definition parseFailedDoc :: "string \<Rightarrow> string \<Rightarrow> string \<Rightarrow> processedDoc" where
  "parseFailedDoc docId fname analysisText =
     \<lparr>documentId = docId, filename = fname, analysis = None,
      error = Some ''Failed to parse analysis results'', rawText = Some analysisText\<rparr>"

text \<open>
  The inner \<open>try\<close> block, from the text the model returned. \<open>JSON.parse\<close> is a parameter:
  \<open>None\<close> when it throws. \<open>dbOk\<close> tells whether \<open>Document.findOneAndUpdate\<close> returned;
  it is awaited inside the same \<open>try\<close>, so its failure is caught there too.
\<close>

definition processText ::
  "(string \<Rightarrow> jsvalue option) \<Rightarrow> bool \<Rightarrow> string \<Rightarrow> string \<Rightarrow> string \<Rightarrow> processedDoc" where
  "processText jsonParse dbOk docId fname analysisText =
     (case (case jsonMatch analysisText of
              Some m \<Rightarrow> jsonParse (trim (jsonStr m))
            | None \<Rightarrow> Some fallbackAnalysis) of
        None \<Rightarrow> parseFailedDoc docId fname analysisText
      | Some analysisData \<Rightarrow>
          if dbOk then analysedDoc docId fname analysisData
          else parseFailedDoc docId fname analysisText)"

text \<open>
  What the outer \<open>try\<close> block caught: an \<open>Error\<close> with its message, or any other value.
\<close>

datatype thrown = ErrorObj string | OtherThrown

text \<open>
  One document of the batch: its identifier and name, what fetching the file and calling
  the model gave (the model's text, or what was thrown), and the outcome of the database
  update.
\<close>

record docInput =
  docId :: string
  docFilename :: string
  generated :: "thrown + string"
  dbUpdateOk :: bool

definition processDocument :: "(string \<Rightarrow> jsvalue option) \<Rightarrow> docInput \<Rightarrow> processedDoc" where
  "processDocument jsonParse inp =
     (case generated inp of
        Inr analysisText \<Rightarrow>
          processText jsonParse (dbUpdateOk inp) (docId inp) (docFilename inp) analysisText
      | Inl docError \<Rightarrow>
          \<lparr>documentId = docId inp, filename = docFilename inp, analysis = None,
           error = Some (''Processing error: '' @
                    (case docError of ErrorObj msg \<Rightarrow> msg | OtherThrown \<Rightarrow> ''Unknown error'')),
           rawText = None\<rparr>)"

section \<open>Merging the documents and finding the missing fields\<close>

text \<open>\<open>formData\<close>: the own properties of the object that starts as \<open>{}\<close>.\<close>

type_synonym formData = "string \<rightharpoonup> jsvalue"

definition requiredFields :: "string list" where
  "requiredFields =
     [''firstName'', ''lastName'', ''ssn'', ''filingStatus'',
      ''address'', ''city'', ''state'', ''zip'',
      ''wages'', ''interest'', ''dividends'', ''capitalGains'']"

text \<open>
  Reading \<open>formData[key]\<close> finds an own property, or else a member inherited from
  \<open>Object.prototype\<close> under one of these names; such a member is a function or an object,
  hence truthy. \<open>None\<close> is \<open>undefined\<close>.
\<close>

definition objectPrototypeKeys :: "string list" where
  "objectPrototypeKeys =
     [''constructor'', ''__defineGetter__'', ''__defineSetter__'', ''hasOwnProperty'',
      ''__lookupGetter__'', ''__lookupSetter__'', ''isPrototypeOf'', ''propertyIsEnumerable'',
      ''toString'', ''valueOf'', ''__proto__'', ''toLocaleString'']"

definition inheritedMember :: jsvalue where
  "inheritedMember = JObj []"

definition formDataGet :: "formData \<Rightarrow> string \<Rightarrow> jsvalue option" where
  "formDataGet fd key =
     (case fd key of
        Some v \<Rightarrow> Some v
      | None \<Rightarrow> if key \<in> set objectPrototypeKeys then Some inheritedMember else None)"

text \<open>\<open>!formData[key] || formData[key] === null\<close>\<close>

definition notSet :: "formData \<Rightarrow> string \<Rightarrow> bool" where
  "notSet fd key =
     (case formDataGet fd key of None \<Rightarrow> True | Some v \<Rightarrow> \<not> truthy v \<or> v = JNull)"

definition mergeEntry :: "string \<times> jsvalue \<Rightarrow> formData \<Rightarrow> formData" where
  "mergeEntry kv fd =
     (case kv of (key, val) \<Rightarrow> if val \<noteq> JNull \<and> notSet fd key then fd(key \<mapsto> val) else fd)"

text \<open>\<open>doc.analysis && !doc.error\<close>\<close>

definition mergeable :: "processedDoc \<Rightarrow> bool" where
  "mergeable doc =
     ((case analysis doc of None \<Rightarrow> False | Some a \<Rightarrow> truthy a) \<and>
      \<not> (case error doc of None \<Rightarrow> False | Some e \<Rightarrow> e \<noteq> []))"

text \<open>The entries the merge loop visits for one document.\<close>

definition docEntries :: "processedDoc \<Rightarrow> (string \<times> jsvalue) list" where
  "docEntries doc =
     (if mergeable doc then (case analysis doc of None \<Rightarrow> [] | Some a \<Rightarrow> objectEntries a) else [])"

definition mergeDoc :: "processedDoc \<Rightarrow> formData \<Rightarrow> formData" where
  "mergeDoc doc fd = fold mergeEntry (docEntries doc) fd"

definition mergeDocs :: "processedDoc list \<Rightarrow> formData" where
  "mergeDocs docs = fold mergeDoc docs Map.empty"

text \<open>The second \<open>forEach\<close>: a required field that is not set is pushed, in list order.\<close>

definition missingFields :: "formData \<Rightarrow> string list" where
  "missingFields fd =
     fold (\<lambda>field missing. if notSet fd field then missing @ [field] else missing)
       requiredFields []"

text \<open>The body of the response: \<open>formData\<close>, \<open>missingFields\<close> and the documents.\<close>

definition extractTaxInfo ::
  "(string \<Rightarrow> jsvalue option) \<Rightarrow> docInput list \<Rightarrow> formData \<times> string list \<times> processedDoc list" where
  "extractTaxInfo jsonParse inputs =
     (let processedDocs = map (processDocument jsonParse) inputs;
          fd = mergeDocs processedDocs
      in (fd, missingFields fd, processedDocs))"

text \<open>
  The field names the extraction prompt asks for, and the ones the route
  \<open>/complete-tax-form\<close> treats as numbers.
\<close>

definition fieldVocabulary :: "string list" where
  "fieldVocabulary =
     [''firstName'', ''lastName'', ''ssn'', ''filingStatus'',
      ''address'', ''city'', ''state'', ''zip'',
      ''wages'', ''interest'', ''dividends'', ''capitalGains'',
      ''otherIncome'', ''adjustments'', ''deductions'']"

definition numericFields :: "string list" where
  "numericFields =
     [''wages'', ''interest'', ''dividends'', ''capitalGains'',
      ''otherIncome'', ''adjustments'', ''deductions'']"

section \<open>Example inputs\<close>

text \<open>A complete return, used to instantiate the theorems below.\<close>

definition exampleData :: Form1040Data where
  "exampleData =
     \<lparr>firstName = ''John'', lastName = ''Doe'', ssn = ''123456789'', filingStatus = ''single'',
      address = ''123 Main St'', city = ''Anytown'', state = ''CA'', zip_f = ''12345'',
      wages = Num 75000, interest = Num 1200, dividends = Num 850, capitalGains = Num 3000,
      otherIncome = None, adjustments = None, deductions = None\<rparr>"

text \<open>A text that the model may return for a document: a JSON object.\<close>

definition exampleJson :: string where
  "exampleJson = ''{\"employer\": \"ACME\", \"wages\": \"75,000\", \"interest\": 1200}''"

text \<open>
  \<open>JSON.parse\<close> on the texts of the examples: on \<open>exampleJson\<close> it returns the object
  written there, on \<open>{}\<close> the empty object, and on \<open>{oops}\<close> it throws (a property name
  must be a quoted string). The examples apply it to these three texts only.
\<close>

definition exampleParse :: "string \<Rightarrow> jsvalue option" where
  "exampleParse s =
     (if s = exampleJson
      then Some (JObj [(''employer'', JStr ''ACME''), (''wages'', JStr ''75,000''),
                       (''interest'', JNum 1200)])
      else if s = ''{}'' then Some (JObj [])
      else None)"

section \<open>The specification's wording, for comparison with the code\<close>

text \<open>
  The progressive-bracket function as the specification words it: every bracket has a
  lower threshold, an upper threshold (none for the last) and a marginal rate; the tax is
  the sum over the brackets of the rate times the income that falls in the bracket, in
  exact arithmetic.
\<close>

definition spec_brackets :: "(rat \<times> rat option \<times> rat) list" where
  "spec_brackets =
     [(0, Some 10275, 10 / 100),
      (10275, Some 41775, 12 / 100),
      (41775, Some 89075, 22 / 100),
      (89075, Some 170050, 24 / 100),
      (170050, Some 215950, 32 / 100),
      (215950, Some 539900, 35 / 100),
      (539900, None, 37 / 100)]"

definition spec_incomeInBracket :: "rat \<Rightarrow> rat \<times> rat option \<times> rat \<Rightarrow> rat" where
  "spec_incomeInBracket t b =
     (case b of (lo, hi, r) \<Rightarrow> max 0 ((case hi of None \<Rightarrow> t | Some h \<Rightarrow> min t h) - lo))"

definition spec_progressiveTax :: "rat \<Rightarrow> rat" where
  "spec_progressiveTax t = (\<Sum>b\<leftarrow>spec_brackets. snd (snd b) * spec_incomeInBracket t b)"

text \<open>The result rounded to the nearest whole currency unit.\<close>

definition spec_estimatedTax :: "rat \<Rightarrow> rat" where
  "spec_estimatedTax t = of_int \<lfloor>spec_progressiveTax t + 1 / 2\<rfloor>"

text \<open>The specification's lookup of the standard deduction by filing status.\<close>

definition spec_standardDeduction :: "string \<Rightarrow> rat option" where
  "spec_standardDeduction =
     map_of [(''single'', 12950), (''married_separate'', 12950),
             (''head_of_household'', 19400), (''married_joint'', 25900),
             (''qualifying_widow'', 25900)]"

text \<open>
  The rule of the specification for the deduction: the lookup, unless a deductions value
  greater than 0 is supplied.
\<close>

fun greaterThanZero :: "jsnum \<Rightarrow> bool" where
  "greaterThanZero (Num x) = (0 < x)"
| "greaterThanZero PosInf = True"
| "greaterThanZero NegInf = False"
| "greaterThanZero NaN = False"

definition spec_deductionUsed :: "Form1040Data \<Rightarrow> jsnum option" where
  "spec_deductionUsed d =
     (case deductions d of
        None \<Rightarrow> map_option Num (spec_standardDeduction (filingStatus d))
      | Some v \<Rightarrow>
          if greaterThanZero v then Some v
          else map_option Num (spec_standardDeduction (filingStatus d)))"

text \<open>
  The total income as the specification words it: the sum of the five amounts (other
  income counting as 0 when absent).
\<close>

fun exactValue :: "jsnum \<Rightarrow> rat option" where
  "exactValue (Num x) = Some x"
| "exactValue PosInf = None"
| "exactValue NegInf = None"
| "exactValue NaN = None"

definition spec_totalIncome :: "Form1040Data \<Rightarrow> rat option" where
  "spec_totalIncome d =
     (case (exactValue (wages d), exactValue (interest d), exactValue (dividends d),
            exactValue (capitalGains d),
            exactValue (case otherIncome d of None \<Rightarrow> Num 0 | Some v \<Rightarrow> v)) of
        (Some w, Some i, Some v, Some c, Some x) \<Rightarrow> Some (w + i + v + c + x)
      | _ \<Rightarrow> None)"

section \<open>Properties of the tax computation\<close>

subsection \<open>Rounding to the nearest double\<close>

lemma ilog2i_nonneg: "0 \<le> ilog2i n"
  by (induction n rule: ilog2i.induct) (simp add: ilog2i.simps)

lemma ilog2i_bounds:
  "1 \<le> n \<Longrightarrow> 2 ^ nat (ilog2i n) \<le> n \<and> n < 2 * 2 ^ nat (ilog2i n)"
proof (induction n rule: ilog2i.induct)
  case (1 n)
  show ?case
  proof (cases "n \<le> 1")
    case True
    then have "n = 1" using "1.prems" by simp
    then show ?thesis by (simp add: ilog2i.simps)
  next
    case False
    then have h: "1 \<le> n div 2" by simp
    have IH: "2 ^ nat (ilog2i (n div 2)) \<le> n div 2 \<and> n div 2 < 2 * 2 ^ nat (ilog2i (n div 2))"
      using "1.IH" [OF False h] .
    have e: "nat (ilog2i n) = Suc (nat (ilog2i (n div 2)))"
      using False ilog2i_nonneg [of "n div 2"] by (simp add: ilog2i.simps [of n] nat_add_distrib)
    show ?thesis
      unfolding e using IH by (simp; linarith)
  qed
qed

lemma ilog2_bounds:
  assumes "0 < x"
  shows "2 powi (ilog2 x) \<le> x \<and> x < 2 powi (ilog2 x + 1)"
proof -
  obtain p q where pq: "quotient_of x = (p, q)" by (cases "quotient_of x")
  have q: "0 < q" using pq by (rule quotient_of_denom_pos)
  have x: "x = of_int p / of_int q" using pq by (rule quotient_of_div)
  have p: "0 < p"
    using assms q unfolding x by (simp add: zero_less_divide_iff)
  define a where "a = ilog2i p"
  define b where "b = ilog2i q"
  have a0: "0 \<le> a" and b0: "0 \<le> b"
    by (simp_all add: a_def b_def ilog2i_nonneg)
  have pb: "2 ^ nat a \<le> p \<and> p < 2 * 2 ^ nat a"
    unfolding a_def using p by (intro ilog2i_bounds) simp
  have qb: "2 ^ nat b \<le> q \<and> q < 2 * 2 ^ nat b"
    unfolding b_def using q by (intro ilog2i_bounds) simp
  have pa: "(2::rat) powi a \<le> of_int p" "of_int p < 2 * (2::rat) powi a"
  proof -
    have "(of_int (2 ^ nat a) :: rat) \<le> of_int p"
      using pb by (subst of_int_le_iff) simp
    then show "(2::rat) powi a \<le> of_int p"
      using a0 by (simp add: power_int_nonneg_exp)
    have "(of_int p :: rat) < of_int (2 * 2 ^ nat a)"
      using pb by (subst of_int_less_iff) simp
    then show "of_int p < 2 * (2::rat) powi a"
      using a0 by (simp add: power_int_nonneg_exp)
  qed
  have qa: "(2::rat) powi b \<le> of_int q" "of_int q < 2 * (2::rat) powi b"
  proof -
    have "(of_int (2 ^ nat b) :: rat) \<le> of_int q"
      using qb by (subst of_int_le_iff) simp
    then show "(2::rat) powi b \<le> of_int q"
      using b0 by (simp add: power_int_nonneg_exp)
    have "(of_int q :: rat) < of_int (2 * 2 ^ nat b)"
      using qb by (subst of_int_less_iff) simp
    then show "of_int q < 2 * (2::rat) powi b"
      using b0 by (simp add: power_int_nonneg_exp)
  qed
  define d where "d = a - b"
  have qpos: "(0::rat) < of_int q" using q by simp
  have pw: "(2::rat) powi a = 2 powi d * 2 powi b"
    unfolding d_def by (simp add: power_int_diff)
  have bpos: "(0::rat) < 2 powi b" by simp
  have dpos: "(0::rat) < 2 powi d" by simp
  have up: "x < 2 powi (d + 1)"
  proof -
    have "(of_int p :: rat) < 2 * (2 powi d * 2 powi b)" using pa(2) pw by simp
    also have "\<dots> \<le> 2 * 2 powi d * of_int q"
      using qa(1) dpos by (simp add: mult_left_mono)
    finally have "(of_int p :: rat) / of_int q < 2 * 2 powi d"
      using qpos by (simp add: pos_divide_less_eq)
    then show ?thesis unfolding x by (simp add: power_int_add)
  qed
  have lo: "2 powi (d - 1) \<le> x"
  proof -
    have "(2::rat) powi d * of_int q \<le> 2 powi d * (2 * 2 powi b)"
      using qa(2) dpos by (simp add: mult_left_mono less_imp_le)
    also have "\<dots> = 2 * 2 powi a" using pw by simp
    also have "\<dots> \<le> 2 * of_int p" using pa(1) by simp
    finally have "(2::rat) powi d / 2 * of_int q \<le> of_int p" by simp
    then have "(2::rat) powi d / 2 \<le> of_int p / of_int q"
      using qpos by (simp add: pos_le_divide_eq)
    then show ?thesis unfolding x by (simp add: power_int_diff)
  qed
  have il: "ilog2 x = (if x < 2 powi d then d - 1 else d)"
    by (simp add: ilog2_def pq a_def b_def d_def Let_def)
  show ?thesis
  proof (cases "x < 2 powi d")
    case True
    then show ?thesis using il lo by simp
  next
    case False
    then show ?thesis using il up by simp
  qed
qed

lemma pow2_less_D: "(2::rat) powi m < 2 powi n \<Longrightarrow> m < n"
proof (rule ccontr)
  assume lt: "(2::rat) powi m < 2 powi n" and "\<not> m < n"
  then have "n \<le> m" by simp
  then have "(2::rat) powi n \<le> 2 powi m"
    by (intro power_int_increasing) simp_all
  then show False using lt by simp
qed

lemma pow2_mono: "m \<le> n \<Longrightarrow> (2::rat) powi m \<le> 2 powi n"
  by (intro power_int_increasing) simp_all

lemma ilog2_unique:
  assumes "2 powi e \<le> (x::rat)" "x < 2 powi (e + 1)"
  shows "ilog2 x = e"
proof -
  have "(0::rat) < 2 powi e" by simp
  then have pos: "0 < x"
    using assms(1) by linarith
  have b: "2 powi (ilog2 x) \<le> x" "x < 2 powi (ilog2 x + 1)"
    using ilog2_bounds [OF pos] by simp_all
  have "(2::rat) powi e < 2 powi (ilog2 x + 1)"
    using assms(1) b(2) by simp
  then have 1: "e < ilog2 x + 1"
    by (rule pow2_less_D)
  have "(2::rat) powi (ilog2 x) < 2 powi (e + 1)"
    using assms(2) b(1) by simp
  then have 2: "ilog2 x < e + 1"
    by (rule pow2_less_D)
  show ?thesis using 1 2 by simp
qed

lemma roundTiesEven_int: "roundTiesEven (of_int k) = k"
  by (simp add: roundTiesEven_def)

lemma roundTiesEven_near: "\<bar>of_int (roundTiesEven y) - y\<bar> \<le> 1 / 2"
proof -
  have "of_int \<lfloor>y\<rfloor> \<le> y" "y < of_int \<lfloor>y\<rfloor> + 1"
    by linarith+
  then show ?thesis
    by (auto simp: roundTiesEven_def Let_def)
qed

lemma roundTiesEven_nonneg: "0 \<le> y \<Longrightarrow> 0 \<le> roundTiesEven y"
  by (auto simp: roundTiesEven_def Let_def)

text \<open>A value that fits the grid of its binade is its own rounding.\<close>

lemma rnd_exact:
  assumes nz: "x \<noteq> 0"
    and e: "ilog2 \<bar>x\<bar> \<le> 1022"
    and grid: "\<bar>x\<bar> / 2 powi (max (ilog2 \<bar>x\<bar> - 52) (- 1074)) = of_int k"
  shows "rnd x = Num x"
proof -
  define q where "q = max (ilog2 \<bar>x\<bar> - 52) (- 1074)"
  have m: "roundTiesEven (\<bar>x\<bar> / 2 powi q) = k"
    using grid by (simp add: q_def roundTiesEven_int)
  have "of_int k * 2 powi q = \<bar>x\<bar>"
    using grid [folded q_def] by (simp add: field_simps)
  then have "sgn x * (of_int k * 2 powi q) = x"
    by (simp add: sgn_if)
  then show ?thesis
    using nz e m by (simp add: rnd_def Let_def q_def [symmetric])
qed

lemma rnd_of_int:
  assumes "\<bar>n\<bar> \<le> 2 ^ 53"
  shows "rnd (of_int n) = Num (of_int n)"
proof (cases "n = 0")
  case True
  then show ?thesis by (simp add: rnd_def)
next
  case False
  define x :: rat where "x = of_int n"
  have ax: "\<bar>x\<bar> = of_int \<bar>n\<bar>" by (simp add: x_def)
  have pos: "0 < \<bar>x\<bar>" using False by (simp add: x_def)
  define e where "e = ilog2 \<bar>x\<bar>"
  have b: "2 powi e \<le> \<bar>x\<bar>" "\<bar>x\<bar> < 2 powi (e + 1)"
    using ilog2_bounds [OF pos] by (simp_all add: e_def)
  have "(of_int \<bar>n\<bar> :: rat) \<le> of_int (2 ^ 53)"
    using assms by (simp only: of_int_le_iff)
  then have x53: "\<bar>x\<bar> \<le> 2 powi 53"
    by (simp add: ax)
  moreover have "(2::rat) powi 53 < 2 powi 54" by simp
  ultimately have "(2::rat) powi e < 2 powi 54"
    using b(1) by linarith
  then have e53: "e \<le> 53"
    using pow2_less_D [of e 54] by simp
  have "1 \<le> \<bar>n\<bar>" using False by simp
  then have "(of_int 1 :: rat) \<le> of_int \<bar>n\<bar>"
    by (simp only: of_int_le_iff)
  then have "(1::rat) \<le> \<bar>x\<bar>"
    by (simp add: ax)
  then have "(2::rat) powi 0 < 2 powi (e + 1)"
    using b(2) by simp
  then have e0: "0 \<le> e"
    using pow2_less_D [of 0 "e + 1"] by simp
  have q: "max (e - 52) (- 1074) = e - 52"
    using e0 by simp
  have "\<exists>k. \<bar>x\<bar> / 2 powi (e - 52) = of_int k"
  proof (cases "e \<le> 52")
    case True
    have "\<bar>x\<bar> / 2 powi (e - 52) = \<bar>x\<bar> * 2 powi (52 - e)"
      by (simp add: power_int_diff field_simps)
    also have "\<dots> = of_int (\<bar>n\<bar> * 2 ^ nat (52 - e))"
      using True by (simp add: ax power_int_nonneg_exp)
    finally show ?thesis by blast
  next
    case False
    then have e: "e = 53" using e53 by simp
    have "\<bar>x\<bar> = 2 powi 53"
      using b(1) x53 unfolding e by simp
    then have "\<bar>x\<bar> / 2 powi (e - 52) = of_int (2 ^ 52)"
      unfolding e by simp
    then show ?thesis by blast
  qed
  then obtain k where "\<bar>x\<bar> / 2 powi (max (ilog2 \<bar>x\<bar> - 52) (- 1074)) = of_int k"
    using q by (auto simp: e_def)
  moreover have "ilog2 \<bar>x\<bar> \<le> 1022" using e53 by (simp add: e_def)
  moreover have "x \<noteq> 0" using False by (simp add: x_def)
  ultimately show ?thesis
    unfolding x_def [symmetric] by (intro rnd_exact)
qed

text \<open>Below the overflow range, rounding gives a number whose error is at most half a unit
  in the last place.\<close>

lemma rnd_error:
  assumes "\<bar>x\<bar> < 2 powi 1023"
  shows "\<exists>y. rnd x = Num y \<and> \<bar>y - x\<bar> \<le> \<bar>x\<bar> / 2 ^ 53 + 1 / 2 ^ 1075 \<and> (0 \<le> x \<longrightarrow> 0 \<le> y)"
proof (cases "x = 0")
  case True
  then show ?thesis by (simp add: rnd_def)
next
  case False
  then have pos: "0 < \<bar>x\<bar>" by simp
  define e where "e = ilog2 \<bar>x\<bar>"
  define q where "q = max (e - 52) (- 1074)"
  define m where "m = roundTiesEven (\<bar>x\<bar> / 2 powi q)"
  have b: "2 powi e \<le> \<bar>x\<bar>" "\<bar>x\<bar> < 2 powi (e + 1)"
    using ilog2_bounds [OF pos] by (simp_all add: e_def)
  have "(2::rat) powi e < 2 powi 1023"
    using b(1) assms by linarith
  then have e: "e \<le> 1022"
    using pow2_less_D [of e 1023] by simp
  have r: "rnd x = Num (sgn x * (of_int m * 2 powi q))"
    using False e by (simp add: rnd_def Let_def e_def [symmetric] q_def [symmetric] m_def)
  have qpos: "(0::rat) < 2 powi q" by simp
  have "\<bar>of_int m - \<bar>x\<bar> / 2 powi q\<bar> \<le> 1 / 2"
    unfolding m_def by (rule roundTiesEven_near)
  then have "\<bar>of_int m - \<bar>x\<bar> / 2 powi q\<bar> * 2 powi q \<le> 1 / 2 * 2 powi q"
    using qpos by (intro mult_right_mono) simp_all
  moreover have "(of_int m - \<bar>x\<bar> / 2 powi q) * 2 powi q = of_int m * 2 powi q - \<bar>x\<bar>"
    using qpos by (simp add: left_diff_distrib)
  moreover have "\<bar>(of_int m - \<bar>x\<bar> / 2 powi q) * 2 powi q\<bar> =
      \<bar>of_int m - \<bar>x\<bar> / 2 powi q\<bar> * 2 powi q"
    using qpos by (simp only: abs_mult abs_of_pos)
  ultimately have near: "\<bar>of_int m * 2 powi q - \<bar>x\<bar>\<bar> \<le> 2 powi q / 2"
    by simp
  have qb: "(2::rat) powi q / 2 \<le> \<bar>x\<bar> / 2 ^ 53 + 1 / 2 ^ 1075"
  proof (cases "e - 52 \<le> - 1074")
    case True
    then have "q = - 1074" by (simp add: q_def)
    then have "(2::rat) powi q / 2 = 1 / 2 ^ 1075"
      by (simp add: power_int_minus field_simps)
    then show ?thesis by simp
  next
    case False
    then have "q = e - 52" by (simp add: q_def)
    then have "(2::rat) powi q / 2 = 2 powi e / 2 ^ 53"
      by (simp add: power_int_diff)
    also have "\<dots> \<le> \<bar>x\<bar> / 2 ^ 53"
      using b(1) by (simp add: divide_right_mono)
    finally show ?thesis by simp
  qed
  define y where "y = sgn x * (of_int m * 2 powi q)"
  have m0: "0 \<le> m"
    unfolding m_def using qpos by (intro roundTiesEven_nonneg) simp
  have "\<bar>y - x\<bar> = \<bar>of_int m * 2 powi q - \<bar>x\<bar>\<bar>"
    using False by (cases "0 < x") (simp_all add: y_def sgn_if abs_if)
  then have "\<bar>y - x\<bar> \<le> \<bar>x\<bar> / 2 ^ 53 + 1 / 2 ^ 1075"
    using near qb by linarith
  moreover have "0 \<le> x \<longrightarrow> 0 \<le> y"
    using m0 qpos by (simp add: y_def sgn_if)
  ultimately show ?thesis
    using r unfolding y_def by blast
qed

subsection \<open>Double arithmetic\<close>

lemma rnd_nonneg: "\<bar>x\<bar> < 2 powi 1023 \<Longrightarrow> 0 \<le> x \<Longrightarrow> \<exists>y. rnd x = Num y \<and> 0 \<le> y"
  using rnd_error [of x] by blast

lemma jsAdd_int:
  "\<bar>m + n\<bar> \<le> 2 ^ 53 \<Longrightarrow> jsAdd (Num (of_int m)) (Num (of_int n)) = Num (of_int (m + n))"
  using rnd_of_int [of "m + n"] by simp

lemma jsSub_int:
  "\<bar>m - n\<bar> \<le> 2 ^ 53 \<Longrightarrow> jsSub (Num (of_int m)) (Num (of_int n)) = Num (of_int (m - n))"
  using rnd_of_int [of "m - n"] by (simp add: jsSub_def)

lemma rnd_numeral: "numeral k \<le> (2::int) ^ 53 \<Longrightarrow> rnd (numeral k) = Num (numeral k)"
  using rnd_of_int [of "numeral k"] by simp

lemma rnd_neg_numeral:
  "numeral k \<le> (2::int) ^ 53 \<Longrightarrow> rnd (- numeral k) = Num (- numeral k)"
  using rnd_of_int [of "- numeral k"] by simp

lemma rnd_0: "rnd 0 = Num 0"
  by (simp add: rnd_def)

lemmas num_eval = rnd_numeral rnd_neg_numeral rnd_0 jsSub_def

text \<open>The rate literals of the source, as the doubles they denote.\<close>

lemma lit_rates:
  "lit (10 / 100) = Num (3602879701896397 / 36028797018963968)"
  "lit (12 / 100) = Num (1080863910568919 / 9007199254740992)"
  "lit (22 / 100) = Num (7926335344172073 / 36028797018963968)"
  "lit (24 / 100) = Num (1080863910568919 / 4503599627370496)"
  "lit (32 / 100) = Num (5764607523034235 / 18014398509481984)"
  "lit (35 / 100) = Num (3152519739159347 / 9007199254740992)"
  "lit (37 / 100) = Num (3332663724254167 / 9007199254740992)"
  by code_simp+

text \<open>The other literals of the bracket chain are doubles: they denote themselves.\<close>

lemma lit_bases:
  "lit 1027.50 = Num 1027.50" "lit 4807.50 = Num 4807.50" "lit 15213.50 = Num 15213.50"
  "lit 34647.50 = Num 34647.50" "lit 49335.50 = Num 49335.50" "lit 162718 = Num 162718"
  by code_simp+

subsection \<open>The amounts of the line items\<close>

lemma orElse_zero:
  "orElse x (Num 0) = (case x of None \<Rightarrow> Num 0 | Some v \<Rightarrow> if v = NaN then Num 0 else v)"
  by (auto simp: orElse_def split: option.splits)

lemma deductionUsed_eq: "deductionUsed d = orElse (deductions d) (standardDeduction d)"
  by (simp add: deductionUsed_def taxItems_def)

lemma totalIncome_eq:
  "totalIncome d =
     jsAdd (jsAdd (jsAdd (jsAdd (wages d) (interest d)) (dividends d)) (capitalGains d))
       (orElse (otherIncome d) (Num 0))"
  by (simp add: totalIncome_def incomeItems_def)

lemma adjustedGrossIncome_eq:
  "adjustedGrossIncome d = jsSub (totalIncome d) (orElse (adjustments d) (Num 0))"
  by (simp add: adjustedGrossIncome_def adjustedItems_def totalIncome_eq)

lemma taxableIncome_deductionUsed:
  "taxableIncome d = mathMax0 (jsSub (adjustedGrossIncome d) (deductionUsed d))"
  by (simp add: taxableIncome_def adjustedGrossIncome_def deductionUsed_eq)

lemma taxPrinted_eq: "taxPrinted d = mathRound (bracketTax (taxableIncome d))"
  by (simp add: taxPrinted_def taxItems_def estimatedTax_def)

lemma mathMax0_nonneg: "mathMax0 v = Num x \<Longrightarrow> 0 \<le> x"
  by (cases v) auto

lemma taxableIncome_nonneg: "taxableIncome d = Num x \<Longrightarrow> 0 \<le> x"
  unfolding taxableIncome_def by (rule mathMax0_nonneg)

subsection \<open>The error of the bracket chain\<close>

text \<open>
  One branch of the chain, \<open>b + (t - h) * r\<close>, rounds three times: the difference, the
  product and the sum. The rate \<open>rd\<close> is the double nearest to \<open>r\<close>.
\<close>

lemma range_consts:
  "(2::rat) powi 1023 = 8388608 * 2 ^ 1000" "(1048576::rat) \<le> 2 ^ 1000"
  "(0::rat) \<le> 1 / 2 ^ 1075" "(1::rat) / 2 ^ 1075 \<le> 1"
  "(1::rat) / 2 ^ 1072 = 8 * (1 / 2 ^ 1075)"
  by simp_all

lemma rate_error:
  fixes a r rd :: rat
  assumes a: "0 \<le> a" and rd: "\<bar>rd - r\<bar> \<le> r / 2 ^ 53"
  shows "\<bar>a * rd - a * r\<bar> \<le> a * r / 9007199254740992"
proof -
  have "\<bar>a * rd - a * r\<bar> = a * \<bar>rd - r\<bar>"
    using a by (simp add: right_diff_distrib [symmetric] abs_mult)
  also have "\<dots> \<le> a * (r / 2 ^ 53)"
    using a rd by (rule mult_left_mono [rotated])
  finally show ?thesis
    by simp
qed

lemma scaled_error:
  fixes a a' rd e :: rat
  assumes a': "\<bar>a' - a\<bar> \<le> a / 9007199254740992 + e" and e: "0 \<le> e"
    and rd: "0 \<le> rd" "rd \<le> 1"
  shows "\<bar>a' * rd - a * rd\<bar> \<le> a * rd / 9007199254740992 + e"
proof -
  have "\<bar>a' * rd - a * rd\<bar> = \<bar>a' - a\<bar> * rd"
    using rd(1) by (simp add: left_diff_distrib [symmetric] abs_mult)
  also have "\<dots> \<le> (a / 9007199254740992 + e) * rd"
    using a' rd(1) by (rule mult_right_mono)
  also have "\<dots> = a * rd / 9007199254740992 + e * rd"
    by (simp add: distrib_right)
  also have "\<dots> \<le> a * rd / 9007199254740992 + e"
    using e rd by (simp add: mult_left_le)
  finally show ?thesis .
qed

lemma rnd_bound:
  fixes x M e :: rat
  assumes "M = 2 powi 1023" "e = 1 / 2 ^ 1075" "\<bar>x\<bar> < M"
  shows "\<exists>y. rnd x = Num y \<and> \<bar>y - x\<bar> \<le> \<bar>x\<bar> / 9007199254740992 + e \<and> (0 \<le> x \<longrightarrow> 0 \<le> y)"
  using rnd_error [of x] assms(3) unfolding assms(1,2) by simp

lemma bracket_error:
  fixes x h b r rd :: rat
  assumes a: "0 \<le> x - h" "x - h \<le> 2 ^ 1000"
    and b: "0 \<le> b" "b \<le> 1048576"
    and r: "0 \<le> r" and rd: "0 \<le> rd" "rd \<le> 1" "\<bar>rd - r\<bar> \<le> r / 2 ^ 53"
  shows "\<exists>y. jsAdd (Num b) (jsMul (jsSub (Num x) (Num h)) (Num rd)) = Num y \<and>
     \<bar>y - (b + (x - h) * r)\<bar> \<le> (b + (x - h) * r) / 2 ^ 50 + 1 / 2 ^ 1072"
proof -
  define M :: rat where "M = 2 powi 1023"
  define B :: rat where "B = 2 ^ 1000"
  define e :: rat where "e = 1 / 2 ^ 1075"
  define a where "a = x - h"
  have c: "M = 8388608 * B" "1048576 \<le> B" "0 \<le> e" "e \<le> 1"
    unfolding M_def B_def e_def by (rule range_consts)+
  have e8: "1 / 2 ^ 1072 = 8 * e"
    unfolding e_def by (rule range_consts)
  have a0: "0 \<le> a" and aB: "a \<le> B"
    using a by (simp_all add: a_def B_def)
  have "\<bar>a\<bar> < M"
    using a0 aB c by linarith
  then obtain a' where a': "rnd a = Num a'" "\<bar>a' - a\<bar> \<le> \<bar>a\<bar> / 9007199254740992 + e" "0 \<le> a'"
    using rnd_bound [OF M_def e_def, of a] a0 by blast
  have a'': "\<bar>a' - a\<bar> \<le> a / 9007199254740992 + e"
    using a'(2) a0 by simp
  define E where "E = a * r"
  define F where "F = a * rd"
  define A where "A = a' * rd"
  have E0: "0 \<le> E" and F0: "0 \<le> F" and A0: "0 \<le> A"
    using a0 a'(3) r rd(1) by (simp_all add: E_def F_def A_def)
  have FE: "\<bar>F - E\<bar> \<le> E / 9007199254740992"
    unfolding E_def F_def using a0 rd(3) by (rule rate_error)
  have AF: "\<bar>A - F\<bar> \<le> F / 9007199254740992 + e"
    unfolding F_def A_def using a'' c(3) rd(1,2) by (rule scaled_error)
  have "F \<le> a"
    unfolding F_def using a0 rd(1,2) by (simp add: mult_left_le)
  then have FB: "F \<le> B"
    using aB by simp
  have "\<bar>A\<bar> < M"
    using A0 AF FB F0 c by linarith
  then obtain p where p: "rnd A = Num p" "\<bar>p - A\<bar> \<le> \<bar>A\<bar> / 9007199254740992 + e" "0 \<le> p"
    using rnd_bound [OF M_def e_def, of A] A0 by blast
  have "\<bar>b + p\<bar> < M"
    using p(2,3) A0 AF FB F0 b c by linarith
  then obtain y where y: "rnd (b + p) = Num y" "\<bar>y - (b + p)\<bar> \<le> \<bar>b + p\<bar> / 9007199254740992 + e"
    using rnd_bound [OF M_def e_def, of "b + p"] by blast
  have "jsAdd (Num b) (jsMul (jsSub (Num x) (Num h)) (Num rd)) = Num y"
    using a'(1) p(1) y(1) by (simp add: jsSub_def a_def A_def)
  moreover have "\<bar>y - (b + E)\<bar> \<le> (b + E) / 1125899906842624 + 8 * e"
  proof -
    have F1: "F \<le> E + E / 9007199254740992" "E - E / 9007199254740992 \<le> F"
      using FE by linarith+
    have A1: "A \<le> F + F / 9007199254740992 + e" "F - F / 9007199254740992 - e \<le> A"
      using AF by linarith+
    have p1: "p \<le> A + A / 9007199254740992 + e" "A - A / 9007199254740992 - e \<le> p"
      using p(2) A0 by linarith+
    have "\<bar>b + p\<bar> / 9007199254740992 = b / 9007199254740992 + p / 9007199254740992"
      using p(3) b(1) by (simp add: add_divide_distrib)
    then have y1: "y \<le> (b + p) + (b / 9007199254740992 + p / 9007199254740992) + e"
      "(b + p) - (b / 9007199254740992 + p / 9007199254740992) - e \<le> y"
      using y(2) by linarith+
    have A2: "A \<le> E + 3 * E / 9007199254740992 + e"
      "E - 3 * E / 9007199254740992 - e \<le> A"
      using F1 A1 E0 by linarith+
    have p2: "p \<le> E + 5 * E / 9007199254740992 + 3 * e"
      "E - 5 * E / 9007199254740992 - 3 * e \<le> p"
      using A2 p1 E0 c(3) by linarith+
    have "y \<le> (b + E) + (b / 1125899906842624 + E / 1125899906842624) + 8 * e"
      "(b + E) - (b / 1125899906842624 + E / 1125899906842624) - 8 * e \<le> y"
      using p2 y1 E0 b(1) c(3) by linarith+
    then show ?thesis
      unfolding add_divide_distrib by linarith
  qed
  ultimately show ?thesis
    unfolding E_def a_def e8 by auto
qed

lemma first_bracket_error:
  fixes x r rd :: rat
  assumes a: "0 \<le> x" "x \<le> 2 ^ 1000"
    and r: "0 \<le> r" and rd: "0 \<le> rd" "rd \<le> 1" "\<bar>rd - r\<bar> \<le> r / 2 ^ 53"
  shows "\<exists>y. jsMul (Num x) (Num rd) = Num y \<and> \<bar>y - x * r\<bar> \<le> x * r / 2 ^ 50 + 1 / 2 ^ 1072"
proof -
  define M :: rat where "M = 2 powi 1023"
  define B :: rat where "B = 2 ^ 1000"
  define e :: rat where "e = 1 / 2 ^ 1075"
  have c: "M = 8388608 * B" "1048576 \<le> B" "0 \<le> e" "e \<le> 1"
    unfolding M_def B_def e_def by (rule range_consts)+
  have e8: "1 / 2 ^ 1072 = 8 * e"
    unfolding e_def by (rule range_consts)
  have xB: "x \<le> B"
    using a by (simp add: B_def)
  define E where "E = x * r"
  define F where "F = x * rd"
  have E0: "0 \<le> E" and F0: "0 \<le> F"
    using a(1) r rd(1) by (simp_all add: E_def F_def)
  have FE: "\<bar>F - E\<bar> \<le> E / 9007199254740992"
    unfolding E_def F_def using a(1) rd(3) by (rule rate_error)
  have "F \<le> x"
    unfolding F_def using a(1) rd(1,2) by (simp add: mult_left_le)
  then have "\<bar>F\<bar> < M"
    using xB F0 c by linarith
  then obtain y where y: "rnd F = Num y" "\<bar>y - F\<bar> \<le> \<bar>F\<bar> / 9007199254740992 + e"
    using rnd_bound [OF M_def e_def, of F] by blast
  have "jsMul (Num x) (Num rd) = Num y"
    using y(1) by (simp add: F_def)
  moreover have "\<bar>y - E\<bar> \<le> E / 1125899906842624 + 8 * e"
    using y(2) FE F0 E0 c(3) by linarith
  ultimately show ?thesis
    unfolding E_def e8 by auto
qed

text \<open>
  The exact progressive function of the specification, as a chain of comparisons with
  cumulative constants.
\<close>

lemma spec_progressiveTax_chain:
  "0 \<le> t \<Longrightarrow>
   spec_progressiveTax t =
     (if t \<le> 10275 then t * (10 / 100)
      else if t \<le> 41775 then 1027.50 + (t - 10275) * (12 / 100)
      else if t \<le> 89075 then 4807.50 + (t - 41775) * (22 / 100)
      else if t \<le> 170050 then 15213.50 + (t - 89075) * (24 / 100)
      else if t \<le> 215950 then 34647.50 + (t - 170050) * (32 / 100)
      else if t \<le> 539900 then 49335.50 + (t - 215950) * (35 / 100)
      else 162718 + (t - 539900) * (37 / 100))"
  unfolding spec_progressiveTax_def spec_brackets_def spec_incomeInBracket_def
  by (simp add: min_def max_def)

lemma spec_progressiveTax_thresholds:
  "map spec_progressiveTax [10275, 41775, 89075, 170050, 215950, 539900] =
     [1027.50, 4807.50, 15213.50, 34647.50, 49335.50, 162718]"
  unfolding spec_progressiveTax_def spec_brackets_def spec_incomeInBracket_def by simp

lemma bracketTax_chain:
  "bracketTax (Num x) =
     (if x \<le> 10275 then jsMul (Num x) (Num (3602879701896397 / 36028797018963968))
      else if x \<le> 41775 then jsAdd (Num 1027.50) (jsMul (jsSub (Num x) (Num 10275)) (Num (1080863910568919 / 9007199254740992)))
      else if x \<le> 89075 then jsAdd (Num 4807.50) (jsMul (jsSub (Num x) (Num 41775)) (Num (7926335344172073 / 36028797018963968)))
      else if x \<le> 170050 then jsAdd (Num 15213.50) (jsMul (jsSub (Num x) (Num 89075)) (Num (1080863910568919 / 4503599627370496)))
      else if x \<le> 215950 then jsAdd (Num 34647.50) (jsMul (jsSub (Num x) (Num 170050)) (Num (5764607523034235 / 18014398509481984)))
      else if x \<le> 539900 then jsAdd (Num 49335.50) (jsMul (jsSub (Num x) (Num 215950)) (Num (3152519739159347 / 9007199254740992)))
      else jsAdd (Num 162718) (jsMul (jsSub (Num x) (Num 539900)) (Num (3332663724254167 / 9007199254740992))))"
  unfolding bracketTax_def lit_rates by simp

text \<open>
  For a taxable income up to \<open>2 ^ 1000\<close>, the tax computed in doubles is a number within
  \<open>2 ^ -50\<close>, relatively, of the exact progressive function (and \<open>2 ^ -1072\<close>, absolutely,
  for the amounts so small that they are rounded on the subnormal grid).
\<close>

lemma bracketTax_error:
  assumes x: "0 \<le> x" "x \<le> 2 ^ 1000"
  shows "\<exists>y. bracketTax (Num x) = Num y \<and>
     \<bar>y - spec_progressiveTax x\<bar> \<le> spec_progressiveTax x / 2 ^ 50 + 1 / 2 ^ 1072"
proof -
  note s = spec_progressiveTax_chain [OF x(1)]
  consider (b1) "x \<le> 10275"
    | (b2) "10275 < x" "x \<le> 41775"
    | (b3) "41775 < x" "x \<le> 89075"
    | (b4) "89075 < x" "x \<le> 170050"
    | (b5) "170050 < x" "x \<le> 215950"
    | (b6) "215950 < x" "x \<le> 539900"
    | (b7) "539900 < x"
    by linarith
  then show ?thesis
  proof cases
    case b1
    have "\<exists>y. jsMul (Num x) (Num (3602879701896397 / 36028797018963968)) = Num y \<and>
        \<bar>y - x * (10 / 100)\<bar> \<le> x * (10 / 100) / 2 ^ 50 + 1 / 2 ^ 1072"
      using x by (intro first_bracket_error) simp_all
    then show ?thesis
      using b1 by (simp only: s bracketTax_chain if_True)
  next
    case b2
    have "\<exists>y. jsAdd (Num 1027.50) (jsMul (jsSub (Num x) (Num 10275)) (Num (1080863910568919 / 9007199254740992))) = Num y \<and>
        \<bar>y - (1027.50 + (x - 10275) * (12 / 100))\<bar> \<le>
          (1027.50 + (x - 10275) * (12 / 100)) / 2 ^ 50 + 1 / 2 ^ 1072"
      using x b2 by (intro bracket_error) simp_all
    moreover have "bracketTax (Num x) =
        jsAdd (Num 1027.50) (jsMul (jsSub (Num x) (Num 10275)) (Num (1080863910568919 / 9007199254740992)))"
      using b2 unfolding bracketTax_chain by simp
    moreover have "spec_progressiveTax x = 1027.50 + (x - 10275) * (12 / 100)"
      using b2 unfolding s by simp
    ultimately show ?thesis
      by (simp only:)
  next
    case b3
    have "\<exists>y. jsAdd (Num 4807.50) (jsMul (jsSub (Num x) (Num 41775)) (Num (7926335344172073 / 36028797018963968))) = Num y \<and>
        \<bar>y - (4807.50 + (x - 41775) * (22 / 100))\<bar> \<le>
          (4807.50 + (x - 41775) * (22 / 100)) / 2 ^ 50 + 1 / 2 ^ 1072"
      using x b3 by (intro bracket_error) simp_all
    moreover have "bracketTax (Num x) =
        jsAdd (Num 4807.50) (jsMul (jsSub (Num x) (Num 41775)) (Num (7926335344172073 / 36028797018963968)))"
      using b3 unfolding bracketTax_chain by simp
    moreover have "spec_progressiveTax x = 4807.50 + (x - 41775) * (22 / 100)"
      using b3 unfolding s by simp
    ultimately show ?thesis
      by (simp only:)
  next
    case b4
    have "\<exists>y. jsAdd (Num 15213.50) (jsMul (jsSub (Num x) (Num 89075)) (Num (1080863910568919 / 4503599627370496))) = Num y \<and>
        \<bar>y - (15213.50 + (x - 89075) * (24 / 100))\<bar> \<le>
          (15213.50 + (x - 89075) * (24 / 100)) / 2 ^ 50 + 1 / 2 ^ 1072"
      using x b4 by (intro bracket_error) simp_all
    moreover have "bracketTax (Num x) =
        jsAdd (Num 15213.50) (jsMul (jsSub (Num x) (Num 89075)) (Num (1080863910568919 / 4503599627370496)))"
      using b4 unfolding bracketTax_chain by simp
    moreover have "spec_progressiveTax x = 15213.50 + (x - 89075) * (24 / 100)"
      using b4 unfolding s by simp
    ultimately show ?thesis
      by (simp only:)
  next
    case b5
    have "\<exists>y. jsAdd (Num 34647.50) (jsMul (jsSub (Num x) (Num 170050)) (Num (5764607523034235 / 18014398509481984))) = Num y \<and>
        \<bar>y - (34647.50 + (x - 170050) * (32 / 100))\<bar> \<le>
          (34647.50 + (x - 170050) * (32 / 100)) / 2 ^ 50 + 1 / 2 ^ 1072"
      using x b5 by (intro bracket_error) simp_all
    moreover have "bracketTax (Num x) =
        jsAdd (Num 34647.50) (jsMul (jsSub (Num x) (Num 170050)) (Num (5764607523034235 / 18014398509481984)))"
      using b5 unfolding bracketTax_chain by simp
    moreover have "spec_progressiveTax x = 34647.50 + (x - 170050) * (32 / 100)"
      using b5 unfolding s by simp
    ultimately show ?thesis
      by (simp only:)
  next
    case b6
    have "\<exists>y. jsAdd (Num 49335.50) (jsMul (jsSub (Num x) (Num 215950)) (Num (3152519739159347 / 9007199254740992))) = Num y \<and>
        \<bar>y - (49335.50 + (x - 215950) * (35 / 100))\<bar> \<le>
          (49335.50 + (x - 215950) * (35 / 100)) / 2 ^ 50 + 1 / 2 ^ 1072"
      using x b6 by (intro bracket_error) simp_all
    moreover have "bracketTax (Num x) =
        jsAdd (Num 49335.50) (jsMul (jsSub (Num x) (Num 215950)) (Num (3152519739159347 / 9007199254740992)))"
      using b6 unfolding bracketTax_chain by simp
    moreover have "spec_progressiveTax x = 49335.50 + (x - 215950) * (35 / 100)"
      using b6 unfolding s by simp
    ultimately show ?thesis
      by (simp only:)
  next
    case b7
    have "\<exists>y. jsAdd (Num 162718) (jsMul (jsSub (Num x) (Num 539900)) (Num (3332663724254167 / 9007199254740992))) = Num y \<and>
        \<bar>y - (162718 + (x - 539900) * (37 / 100))\<bar> \<le>
          (162718 + (x - 539900) * (37 / 100)) / 2 ^ 50 + 1 / 2 ^ 1072"
      using x b7 by (intro bracket_error) simp_all
    moreover have "bracketTax (Num x) =
        jsAdd (Num 162718) (jsMul (jsSub (Num x) (Num 539900)) (Num (3332663724254167 / 9007199254740992)))"
      using b7 unfolding bracketTax_chain by simp
    moreover have "spec_progressiveTax x = 162718 + (x - 539900) * (37 / 100)"
      using b7 unfolding s by simp
    ultimately show ?thesis
      by (simp only:)
  qed
qed

lemma mathRound_bracketTax_0: "mathRound (bracketTax (Num 0)) = Num 0"
  by code_simp

lemma mathRound_bracketTax_10275: "mathRound (bracketTax (Num 10275)) = Num 1028"
  by code_simp

lemma mathRound_nearest: "\<bar>of_int \<lfloor>y + 1 / 2\<rfloor> - y\<bar> \<le> 1 / (2::rat)"
  by linarith

lemmas tax_eval =
  exampleData_def taxableIncome_def adjustedItems_def incomeItems_def taxItems_def
  totalIncome_def adjustedGrossIncome_def deductionUsed_def orElse_def standardDeduction_def
  num_eval

lemma taxableIncome_example_10275:
  "taxableIncome
     (exampleData\<lparr>wages := Num 23225, interest := Num 0, dividends := Num 0,
        capitalGains := Num 0\<rparr>) = Num 10275"
  by (simp add: tax_eval)

lemma taxableIncome_example_0:
  "taxableIncome
     (exampleData\<lparr>wages := Num 12000, interest := Num 0, dividends := Num 0,
        capitalGains := Num 0\<rparr>) = Num 0"
  by (simp add: tax_eval)

text \<open>
  Claim C2. As stated, the tax is the progressive-bracket function of the taxable income,
  rounded to the nearest whole unit. The source evaluates the bracket formula in double
  arithmetic: the rates are the doubles nearest to 0.10, 0.12, 0.22, 0.24, 0.32, 0.35 and
  0.37, and the difference, the product and the sum are each rounded to the nearest
  double; \<open>Math.round\<close> is applied to that result. What holds: line 15 prints
  \<open>Math.round\<close> of the estimated tax; for a taxable income that is a number up to
  \<open>2 ^ 1000\<close>, the estimated tax is a number within \<open>2 ^ -50\<close>, relatively (and
  \<open>2 ^ -1072\<close>, absolutely), of the exact progressive function with the rates 10, 12, 22,
  24, 32, 35 and 37 percent at the thresholds 10275, 41775, 89075, 170050, 215950 and
  539900, and the printed tax is the integer nearest to the estimated tax (a tie going
  up); the exact function takes the cumulative amounts 1027.50, 4807.50, 15213.50,
  34647.50, 49335.50 and 162718 at the thresholds; a taxable income of 0 gives 0 and one
  of 10275 gives 1028.
\<close>

theorem C2_estimatedTax_progressive_brackets:
  "taxItems d ! 3 = (''15. Tax'', taxPrinted d) \<and>
   taxPrinted d = mathRound (estimatedTax d) \<and>
   (\<forall>x. taxableIncome d = Num x \<and> x \<le> 2 ^ 1000 \<longrightarrow>
      (\<exists>y. estimatedTax d = Num y \<and>
           \<bar>y - spec_progressiveTax x\<bar> \<le> spec_progressiveTax x / 2 ^ 50 + 1 / 2 ^ 1072 \<and>
           taxPrinted d = Num (of_int \<lfloor>y + 1 / 2\<rfloor>) \<and>
           \<bar>of_int \<lfloor>y + 1 / 2\<rfloor> - y\<bar> \<le> 1 / 2)) \<and>
   map spec_progressiveTax [10275, 41775, 89075, 170050, 215950, 539900] =
     [1027.50, 4807.50, 15213.50, 34647.50, 49335.50, 162718] \<and>
   (taxableIncome d = Num 0 \<longrightarrow> taxPrinted d = Num 0) \<and>
   (taxableIncome d = Num 10275 \<longrightarrow> taxPrinted d = Num 1028)"
proof -
  have item: "taxItems d ! 3 = (''15. Tax'', taxPrinted d)"
    by (simp add: taxPrinted_def taxItems_def)
  have line: "taxPrinted d = mathRound (estimatedTax d)"
    by (simp add: taxPrinted_def taxItems_def)
  have bound: "\<exists>y. estimatedTax d = Num y \<and>
           \<bar>y - spec_progressiveTax x\<bar> \<le> spec_progressiveTax x / 2 ^ 50 + 1 / 2 ^ 1072 \<and>
           taxPrinted d = Num (of_int \<lfloor>y + 1 / 2\<rfloor>) \<and>
           \<bar>of_int \<lfloor>y + 1 / 2\<rfloor> - y\<bar> \<le> 1 / 2"
    if t: "taxableIncome d = Num x" and le: "x \<le> 2 ^ 1000" for x
  proof -
    have "0 \<le> x"
      using t by (rule taxableIncome_nonneg)
    then obtain y where y: "bracketTax (Num x) = Num y"
      "\<bar>y - spec_progressiveTax x\<bar> \<le> spec_progressiveTax x / 2 ^ 50 + 1 / 2 ^ 1072"
      using bracketTax_error [OF _ le] by blast
    have e: "estimatedTax d = Num y"
      using t y(1) by (simp add: estimatedTax_def)
    then have "taxPrinted d = Num (of_int \<lfloor>y + 1 / 2\<rfloor>)"
      by (simp add: line)
    then show ?thesis
      using e y(2) mathRound_nearest [of y] by blast
  qed
  have at0: "taxableIncome d = Num 0 \<longrightarrow> taxPrinted d = Num 0"
    by (simp add: taxPrinted_eq mathRound_bracketTax_0)
  have at1: "taxableIncome d = Num 10275 \<longrightarrow> taxPrinted d = Num 1028"
    by (simp add: taxPrinted_eq mathRound_bracketTax_10275)
  show ?thesis
    using item line bound spec_progressiveTax_thresholds at0 at1 by blast
qed

text \<open>
  C2 at two returns: wages of 23225 filed as single leave a taxable income of 10275, an
  estimated tax within the bound of 1027.50 and a printed tax of 1028; wages of 12000
  leave a taxable income of 0 and a tax of 0.
\<close>

theorem C2_estimatedTax_witness:
  "taxableIncome
     (exampleData\<lparr>wages := Num 23225, interest := Num 0, dividends := Num 0,
        capitalGains := Num 0\<rparr>) = Num 10275 \<and>
   (10275::rat) \<le> 2 ^ 1000 \<and>
   (\<exists>y. estimatedTax
          (exampleData\<lparr>wages := Num 23225, interest := Num 0, dividends := Num 0,
             capitalGains := Num 0\<rparr>) = Num y \<and>
        \<bar>y - 1027.50\<bar> \<le> 1027.50 / 2 ^ 50 + 1 / 2 ^ 1072) \<and>
   taxPrinted
     (exampleData\<lparr>wages := Num 23225, interest := Num 0, dividends := Num 0,
        capitalGains := Num 0\<rparr>) = Num 1028 \<and>
   taxableIncome
     (exampleData\<lparr>wages := Num 12000, interest := Num 0, dividends := Num 0,
        capitalGains := Num 0\<rparr>) = Num 0 \<and>
   taxPrinted
     (exampleData\<lparr>wages := Num 12000, interest := Num 0, dividends := Num 0,
        capitalGains := Num 0\<rparr>) = Num 0"
proof -
  let ?a = "exampleData\<lparr>wages := Num 23225, interest := Num 0, dividends := Num 0,
        capitalGains := Num 0\<rparr>"
  let ?b = "exampleData\<lparr>wages := Num 12000, interest := Num 0, dividends := Num 0,
        capitalGains := Num 0\<rparr>"
  note a = C2_estimatedTax_progressive_brackets [of ?a]
  note b = C2_estimatedTax_progressive_brackets [of ?b]
  have le: "(10275::rat) \<le> 2 ^ 1000"
    by simp
  have s: "spec_progressiveTax 10275 = 1027.50"
    using spec_progressiveTax_thresholds by simp
  have "\<exists>y. estimatedTax ?a = Num y \<and>
      \<bar>y - spec_progressiveTax 10275\<bar> \<le> spec_progressiveTax 10275 / 2 ^ 50 + 1 / 2 ^ 1072"
    using a taxableIncome_example_10275 le by blast
  then have "\<exists>y. estimatedTax ?a = Num y \<and> \<bar>y - 1027.50\<bar> \<le> 1027.50 / 2 ^ 50 + 1 / 2 ^ 1072"
    unfolding s .
  moreover have "taxPrinted ?a = Num 1028"
    using a taxableIncome_example_10275 by blast
  moreover have "taxPrinted ?b = Num 0"
    using b taxableIncome_example_0 by blast
  ultimately show ?thesis
    using taxableIncome_example_10275 taxableIncome_example_0 le by blast
qed

text \<open>
  C2 as stated fails: wages of 15.999999999999998 (a double) with deductions of 1 leave a
  taxable income of 14.999999999999998, exactly. The exact progressive function gives a
  tenth of it, which is below 1.5 and rounds to 1; the product in doubles is 1.5, which
  \<open>Math.round\<close> takes to 2.
\<close>

theorem C2_double_product_counterexample:
  "wages (exampleData\<lparr>wages := lit (15999999999999998 / 1000000000000000), interest := Num 0,
      dividends := Num 0, capitalGains := Num 0, deductions := Some (Num 1)\<rparr>) =
     Num (9007199254740991 / 562949953421312) \<and>
   taxableIncome
     (exampleData\<lparr>wages := lit (15999999999999998 / 1000000000000000), interest := Num 0,
        dividends := Num 0, capitalGains := Num 0, deductions := Some (Num 1)\<rparr>) =
     Num (8444249301319679 / 562949953421312) \<and>
   estimatedTax
     (exampleData\<lparr>wages := lit (15999999999999998 / 1000000000000000), interest := Num 0,
        dividends := Num 0, capitalGains := Num 0, deductions := Some (Num 1)\<rparr>) =
     Num (3 / 2) \<and>
   taxPrinted
     (exampleData\<lparr>wages := lit (15999999999999998 / 1000000000000000), interest := Num 0,
        dividends := Num 0, capitalGains := Num 0, deductions := Some (Num 1)\<rparr>) = Num 2 \<and>
   spec_progressiveTax (8444249301319679 / 562949953421312) =
     8444249301319679 / 5629499534213120 \<and>
   spec_estimatedTax (8444249301319679 / 562949953421312) = 1"
  by code_simp

subsection \<open>Income, adjusted gross income and taxable income\<close>

text \<open>Whole amounts whose magnitudes add up to at most \<open>2 ^ 53\<close> are added exactly.\<close>

lemma income_int:
  assumes f: "wages d = Num (of_int w)" "interest d = Num (of_int i)"
      "dividends d = Num (of_int v)" "capitalGains d = Num (of_int c)"
      "orElse (otherIncome d) (Num 0) = Num (of_int x)"
      "orElse (adjustments d) (Num 0) = Num (of_int a)"
      "deductionUsed d = Num (of_int k)"
    and b: "\<bar>w\<bar> + \<bar>i\<bar> + \<bar>v\<bar> + \<bar>c\<bar> + \<bar>x\<bar> + \<bar>a\<bar> + \<bar>k\<bar> \<le> 2 ^ 53"
  shows "totalIncome d = Num (of_int (w + i + v + c + x))"
    and "adjustedGrossIncome d = Num (of_int (w + i + v + c + x - a))"
    and "taxableIncome d = Num (of_int (max 0 (w + i + v + c + x - a - k)))"
proof -
  have 1: "jsAdd (Num (of_int w)) (Num (of_int i)) = Num (of_int (w + i))"
    using b by (intro jsAdd_int) linarith
  have 2: "jsAdd (Num (of_int (w + i))) (Num (of_int v)) = Num (of_int (w + i + v))"
    using b by (intro jsAdd_int) linarith
  have 3: "jsAdd (Num (of_int (w + i + v))) (Num (of_int c)) = Num (of_int (w + i + v + c))"
    using b by (intro jsAdd_int) linarith
  have 4: "jsAdd (Num (of_int (w + i + v + c))) (Num (of_int x)) =
      Num (of_int (w + i + v + c + x))"
    using b by (intro jsAdd_int) linarith
  show t: "totalIncome d = Num (of_int (w + i + v + c + x))"
    unfolding totalIncome_eq f 1 2 3 4 ..
  have 5: "jsSub (Num (of_int (w + i + v + c + x))) (Num (of_int a)) =
      Num (of_int (w + i + v + c + x - a))"
    using b by (intro jsSub_int) linarith
  show g: "adjustedGrossIncome d = Num (of_int (w + i + v + c + x - a))"
    unfolding adjustedGrossIncome_eq t f 5 ..
  have 6: "jsSub (Num (of_int (w + i + v + c + x - a))) (Num (of_int k)) =
      Num (of_int (w + i + v + c + x - a - k))"
    using b by (intro jsSub_int) linarith
  show "taxableIncome d = Num (of_int (max 0 (w + i + v + c + x - a - k)))"
    unfolding taxableIncome_deductionUsed g f 6 by (simp add: max_def)
qed

text \<open>
  Claim C4. As stated, the total income equals wages + interest + dividends + capital
  gains + other income, the adjusted gross income equals the total income minus the
  adjustments, and the taxable income equals the maximum of 0 and the adjusted gross
  income minus the deduction applied. The source adds and subtracts doubles. What holds:
  the total income is the sum taken from left to right with every partial sum rounded to
  the nearest double, other income counting as 0 when it is absent (or not a number); the
  adjusted gross income is the total income minus the adjustments (0 when absent),
  rounded likewise and not clamped; the taxable income is the maximum of 0 and the
  rounded difference of the adjusted gross income and the deduction used. The rounding of
  a number below \<open>2 ^ 1023\<close> in magnitude moves it by at most \<open>2 ^ -53\<close> of its magnitude
  (and \<open>2 ^ -1075\<close>). When all the amounts are whole numbers whose magnitudes add up to at
  most \<open>2 ^ 53\<close>, the three results are the exact ones, and the adjusted gross income is
  negative when the adjustments exceed the total income.
\<close>

theorem C4_income_agi_taxableIncome:
  "incomeItems d ! 12 = (''9. Total income'', totalIncome d) \<and>
   adjustedItems d ! 1 = (''11. Adjusted gross income'', adjustedGrossIncome d) \<and>
   taxItems d ! 2 = (''14. Taxable income'', taxableIncome d) \<and>
   totalIncome d =
     jsAdd (jsAdd (jsAdd (jsAdd (wages d) (interest d)) (dividends d)) (capitalGains d))
       (case otherIncome d of None \<Rightarrow> Num 0 | Some v \<Rightarrow> if v = NaN then Num 0 else v) \<and>
   adjustedGrossIncome d =
     jsSub (totalIncome d)
       (case adjustments d of None \<Rightarrow> Num 0 | Some v \<Rightarrow> if v = NaN then Num 0 else v) \<and>
   taxableIncome d = mathMax0 (jsSub (adjustedGrossIncome d) (deductionUsed d)) \<and>
   (\<forall>p q. jsAdd (Num p) (Num q) = rnd (p + q) \<and> jsSub (Num p) (Num q) = rnd (p - q) \<and>
      mathMax0 (Num p) = Num (max 0 p)) \<and>
   (\<forall>p. \<bar>p\<bar> < 2 ^ 1023 \<longrightarrow>
      (\<exists>q. rnd p = Num q \<and> \<bar>q - p\<bar> \<le> \<bar>p\<bar> / 2 ^ 53 + 1 / 2 ^ 1075)) \<and>
   (\<forall>w i v c x a k.
      wages d = Num (of_int w) \<and> interest d = Num (of_int i) \<and>
      dividends d = Num (of_int v) \<and> capitalGains d = Num (of_int c) \<and>
      (case otherIncome d of None \<Rightarrow> Num 0 | Some v \<Rightarrow> if v = NaN then Num 0 else v) =
        Num (of_int x) \<and>
      (case adjustments d of None \<Rightarrow> Num 0 | Some v \<Rightarrow> if v = NaN then Num 0 else v) =
        Num (of_int a) \<and>
      deductionUsed d = Num (of_int k) \<and>
      \<bar>w\<bar> + \<bar>i\<bar> + \<bar>v\<bar> + \<bar>c\<bar> + \<bar>x\<bar> + \<bar>a\<bar> + \<bar>k\<bar> \<le> 2 ^ 53 \<longrightarrow>
      totalIncome d = Num (of_int (w + i + v + c + x)) \<and>
      adjustedGrossIncome d = Num (of_int (w + i + v + c + x - a)) \<and>
      taxableIncome d = Num (of_int (max 0 (w + i + v + c + x - a - k))) \<and>
      (w + i + v + c + x < a \<longrightarrow> adjustedGrossIncome d = Num (of_int (w + i + v + c + x - a)) \<and>
         of_int (w + i + v + c + x - a) < (0::rat)))"
proof -
  have items: "incomeItems d ! 12 = (''9. Total income'', totalIncome d) \<and>
      adjustedItems d ! 1 = (''11. Adjusted gross income'', adjustedGrossIncome d) \<and>
      taxItems d ! 2 = (''14. Taxable income'', taxableIncome d)"
    by (simp add: totalIncome_def adjustedGrossIncome_def incomeItems_def adjustedItems_def
        taxItems_def)
  have total: "totalIncome d =
      jsAdd (jsAdd (jsAdd (jsAdd (wages d) (interest d)) (dividends d)) (capitalGains d))
        (case otherIncome d of None \<Rightarrow> Num 0 | Some v \<Rightarrow> if v = NaN then Num 0 else v)"
    unfolding totalIncome_eq orElse_zero ..
  have agi: "adjustedGrossIncome d =
      jsSub (totalIncome d)
        (case adjustments d of None \<Rightarrow> Num 0 | Some v \<Rightarrow> if v = NaN then Num 0 else v)"
    unfolding adjustedGrossIncome_eq orElse_zero ..
  have ops: "\<forall>p q. jsAdd (Num p) (Num q) = rnd (p + q) \<and> jsSub (Num p) (Num q) = rnd (p - q) \<and>
      mathMax0 (Num p) = Num (max 0 p)"
    by (simp add: jsSub_def)
  have err: "\<forall>p. \<bar>p\<bar> < 2 ^ 1023 \<longrightarrow>
      (\<exists>q. rnd p = Num q \<and> \<bar>q - p\<bar> \<le> \<bar>p\<bar> / 2 ^ 53 + 1 / 2 ^ 1075)"
  proof (intro allI impI)
    fix p :: rat
    assume "\<bar>p\<bar> < 2 ^ 1023"
    then have "\<bar>p\<bar> < 2 powi 1023"
      by simp
    then show "\<exists>q. rnd p = Num q \<and> \<bar>q - p\<bar> \<le> \<bar>p\<bar> / 2 ^ 53 + 1 / 2 ^ 1075"
      using rnd_error [of p] by blast
  qed
  have whole: "totalIncome d = Num (of_int (w + i + v + c + x)) \<and>
      adjustedGrossIncome d = Num (of_int (w + i + v + c + x - a)) \<and>
      taxableIncome d = Num (of_int (max 0 (w + i + v + c + x - a - k))) \<and>
      (w + i + v + c + x < a \<longrightarrow> adjustedGrossIncome d = Num (of_int (w + i + v + c + x - a)) \<and>
         of_int (w + i + v + c + x - a) < (0::rat))"
    if "wages d = Num (of_int w) \<and> interest d = Num (of_int i) \<and>
      dividends d = Num (of_int v) \<and> capitalGains d = Num (of_int c) \<and>
      (case otherIncome d of None \<Rightarrow> Num 0 | Some v \<Rightarrow> if v = NaN then Num 0 else v) =
        Num (of_int x) \<and>
      (case adjustments d of None \<Rightarrow> Num 0 | Some v \<Rightarrow> if v = NaN then Num 0 else v) =
        Num (of_int a) \<and>
      deductionUsed d = Num (of_int k) \<and>
      \<bar>w\<bar> + \<bar>i\<bar> + \<bar>v\<bar> + \<bar>c\<bar> + \<bar>x\<bar> + \<bar>a\<bar> + \<bar>k\<bar> \<le> 2 ^ 53" for w i v c x a k
  proof -
    note r = income_int [of d w i v c x a k, unfolded orElse_zero]
    have "totalIncome d = Num (of_int (w + i + v + c + x))"
      "adjustedGrossIncome d = Num (of_int (w + i + v + c + x - a))"
      "taxableIncome d = Num (of_int (max 0 (w + i + v + c + x - a - k)))"
      using that by (intro r; blast)+
    then show ?thesis
      by simp
  qed
  show ?thesis
    using items total agi taxableIncome_deductionUsed ops err whole by blast
qed

text \<open>
  C4 at the example return with adjustments of 90000, all amounts whole: the total income
  is 80050, the adjusted gross income is -9950 and the taxable income is 0.
\<close>

theorem C4_income_agi_witness:
  "totalIncome (exampleData\<lparr>adjustments := Some (Num 90000)\<rparr>) = Num 80050 \<and>
   (75000 + 1200 + 850 + 3000 + 0 :: int) < 90000 \<and>
   adjustedGrossIncome (exampleData\<lparr>adjustments := Some (Num 90000)\<rparr>) = Num (- 9950) \<and>
   taxableIncome (exampleData\<lparr>adjustments := Some (Num 90000)\<rparr>) = Num 0 \<and>
   \<bar>80050\<bar> < (2::rat) ^ 1023 \<and>
   (\<exists>q. rnd 80050 = Num q \<and> \<bar>q - 80050\<bar> \<le> \<bar>80050\<bar> / 2 ^ 53 + 1 / 2 ^ 1075)"
proof -
  let ?d = "exampleData\<lparr>adjustments := Some (Num 90000)\<rparr>"
  note c4 = C4_income_agi_taxableIncome [of ?d]
  have f: "wages ?d = Num (of_int 75000) \<and> interest ?d = Num (of_int 1200) \<and>
      dividends ?d = Num (of_int 850) \<and> capitalGains ?d = Num (of_int 3000) \<and>
      (case otherIncome ?d of None \<Rightarrow> Num 0 | Some v \<Rightarrow> if v = NaN then Num 0 else v) =
        Num (of_int 0) \<and>
      (case adjustments ?d of None \<Rightarrow> Num 0 | Some v \<Rightarrow> if v = NaN then Num 0 else v) =
        Num (of_int 90000) \<and>
      deductionUsed ?d = Num (of_int 12950) \<and>
      \<bar>75000\<bar> + \<bar>1200\<bar> + \<bar>850\<bar> + \<bar>3000\<bar> + \<bar>0\<bar> + \<bar>90000\<bar> + \<bar>12950\<bar> \<le> (2::int) ^ 53"
    by (simp add: exampleData_def deductionUsed_eq orElse_def standardDeduction_def)
  have "totalIncome ?d = Num (of_int (75000 + 1200 + 850 + 3000 + 0)) \<and>
      adjustedGrossIncome ?d = Num (of_int (75000 + 1200 + 850 + 3000 + 0 - 90000)) \<and>
      taxableIncome ?d = Num (of_int (max 0 (75000 + 1200 + 850 + 3000 + 0 - 90000 - 12950)))"
    using c4 f by blast
  then have r: "totalIncome ?d = Num 80050 \<and> adjustedGrossIncome ?d = Num (- 9950) \<and>
      taxableIncome ?d = Num 0"
    by simp
  have lt: "\<bar>80050\<bar> < (2::rat) ^ 1023"
    by simp
  then have "\<exists>q. rnd 80050 = Num q \<and> \<bar>q - 80050\<bar> \<le> \<bar>80050\<bar> / 2 ^ 53 + 1 / 2 ^ 1075"
    using c4 by blast
  moreover have "(75000 + 1200 + 850 + 3000 + 0 :: int) < 90000"
    by simp
  ultimately show ?thesis
    using r lt by blast
qed

text \<open>
  C4 as stated fails: with wages of 18199, interest of 1200.1, dividends of 850.1 and
  capital gains of 3000.8 (the doubles nearest to them), filed as single, the total income
  is 23249.999999999996, below the sum of the four amounts; the taxable income is
  10299.999999999996 and the tax printed is 1030.
\<close>

theorem C4_double_sum_counterexample:
  "interest (exampleData\<lparr>wages := Num 18199, interest := lit (12001 / 10),
      dividends := lit (8501 / 10), capitalGains := lit (30008 / 10)\<rparr>) =
     Num (2639047808987955 / 2199023255552) \<and>
   dividends (exampleData\<lparr>wages := Num 18199, interest := lit (12001 / 10),
      dividends := lit (8501 / 10), capitalGains := lit (30008 / 10)\<rparr>) =
     Num (7477558678179021 / 8796093022208) \<and>
   capitalGains (exampleData\<lparr>wages := Num 18199, interest := lit (12001 / 10),
      dividends := lit (8501 / 10), capitalGains := lit (30008 / 10)\<rparr>) =
     Num (3299414492630221 / 1099511627776) \<and>
   spec_totalIncome (exampleData\<lparr>wages := Num 18199, interest := lit (12001 / 10),
      dividends := lit (8501 / 10), capitalGains := lit (30008 / 10)\<rparr>) =
     Some (204509162766336001 / 8796093022208) \<and>
   totalIncome (exampleData\<lparr>wages := Num 18199, interest := lit (12001 / 10),
      dividends := lit (8501 / 10), capitalGains := lit (30008 / 10)\<rparr>) =
     Num (6390911336447999 / 274877906944) \<and>
   (6390911336447999 / 274877906944 :: rat) < 204509162766336001 / 8796093022208 \<and>
   taxableIncome (exampleData\<lparr>wages := Num 18199, interest := lit (12001 / 10),
      dividends := lit (8501 / 10), capitalGains := lit (30008 / 10)\<rparr>) =
     Num (2831242441523199 / 274877906944) \<and>
   taxPrinted (exampleData\<lparr>wages := Num 18199, interest := lit (12001 / 10),
      dividends := lit (8501 / 10), capitalGains := lit (30008 / 10)\<rparr>) = Num 1030"
  by code_simp

subsection \<open>The deduction\<close>

lemma spec_standardDeduction_lookup:
  "spec_standardDeduction (filingStatus d) = Some s \<Longrightarrow> standardDeduction d = Num s"
  by (auto simp: spec_standardDeduction_def standardDeduction_def split: if_splits)

text \<open>
  On the returns whose deductions value is absent or not negative, the rule of the
  specification and the code agree.
\<close>

lemma deductionUsed_spec_nonnegative:
  "spec_standardDeduction (filingStatus d) = Some s \<Longrightarrow>
   \<forall>v. deductions d = Some v \<longrightarrow> \<not> isNegative v \<Longrightarrow>
   spec_deductionUsed d = Some (deductionUsed d)"
proof -
  assume s: "spec_standardDeduction (filingStatus d) = Some s"
  assume n: "\<forall>v. deductions d = Some v \<longrightarrow> \<not> isNegative v"
  have l: "standardDeduction d = Num s"
    using s by (rule spec_standardDeduction_lookup)
  show ?thesis
  proof (cases "deductions d")
    case None
    then show ?thesis
      using s l by (simp add: spec_deductionUsed_def deductionUsed_eq orElse_def)
  next
    case (Some v)
    then have "\<not> isNegative v"
      using n by simp
    then show ?thesis
      using s l Some
      by (cases v) (auto simp: spec_deductionUsed_def deductionUsed_eq orElse_def)
  qed
qed

text \<open>
  Claim C5. As stated, the deduction is the lookup by filing status (single 12950,
  married_separate 12950, head_of_household 19400, married_joint 25900, qualifying_widow
  25900) unless a deductions value greater than 0 is supplied. The source writes
  \<open>data.deductions || standardDeduction\<close>, which tests whether the value is falsy (0 or
  not a number), not its sign. What holds: for each of the five filing statuses, the
  deduction used (printed on line 12 and subtracted for the taxable income) is the lookup
  when the deductions value is absent, 0 or not a number, and the deductions value itself
  when it is any other number.
\<close>

theorem C5_deduction_lookup_unless_nonzero:
  "spec_standardDeduction (filingStatus d) = Some s \<Longrightarrow>
   taxItems d ! 0 = (''12. Standard deduction or itemized deductions'', deductionUsed d) \<and>
   deductionUsed d =
     (case deductions d of
        None \<Rightarrow> Num s
      | Some v \<Rightarrow> if v = Num 0 \<or> v = NaN then Num s else v) \<and>
   taxableIncome d = mathMax0 (jsSub (adjustedGrossIncome d) (deductionUsed d))"
proof -
  assume "spec_standardDeduction (filingStatus d) = Some s"
  then have "standardDeduction d = Num s"
    by (rule spec_standardDeduction_lookup)
  then have "deductionUsed d =
      (case deductions d of
         None \<Rightarrow> Num s
       | Some v \<Rightarrow> if v = Num 0 \<or> v = NaN then Num s else v)"
    by (simp add: deductionUsed_eq orElse_def)
  moreover have
    "taxItems d ! 0 = (''12. Standard deduction or itemized deductions'', deductionUsed d)"
    by (simp add: deductionUsed_def taxItems_def)
  ultimately show ?thesis
    using taxableIncome_deductionUsed by blast
qed

text \<open>
  C5 at the example return, filed as single: deductions of 0 apply 12950, deductions of
  15000 apply 15000.
\<close>

theorem C5_deduction_witness:
  "spec_standardDeduction (filingStatus (exampleData\<lparr>deductions := Some (Num 0)\<rparr>)) =
     Some 12950 \<and>
   deductionUsed (exampleData\<lparr>deductions := Some (Num 0)\<rparr>) = Num 12950 \<and>
   spec_standardDeduction (filingStatus (exampleData\<lparr>deductions := Some (Num 15000)\<rparr>)) =
     Some 12950 \<and>
   deductionUsed (exampleData\<lparr>deductions := Some (Num 15000)\<rparr>) = Num 15000"
proof -
  have a: "spec_standardDeduction (filingStatus (exampleData\<lparr>deductions := Some (Num 0)\<rparr>)) =
      Some 12950"
    by (simp add: exampleData_def spec_standardDeduction_def)
  have b:
    "spec_standardDeduction (filingStatus (exampleData\<lparr>deductions := Some (Num 15000)\<rparr>)) =
      Some 12950"
    by (simp add: exampleData_def spec_standardDeduction_def)
  have "deductionUsed (exampleData\<lparr>deductions := Some (Num 0)\<rparr>) = Num 12950"
    using C5_deduction_lookup_unless_nonzero [OF a] by simp
  moreover have "deductionUsed (exampleData\<lparr>deductions := Some (Num 15000)\<rparr>) = Num 15000"
    using C5_deduction_lookup_unless_nonzero [OF b] by simp
  ultimately show ?thesis
    using a b by blast
qed

text \<open>
  C5 as stated fails on a negative deductions value: for the example return, filed as
  single, with deductions of -100, the rule of the specification gives 12950 (the value
  is not greater than 0), while the code uses -100 and the taxable income is
  80050 + 100.
\<close>

theorem C5_negative_deduction_counterexample:
  "spec_deductionUsed (exampleData\<lparr>deductions := Some (Num (- 100))\<rparr>) = Some (Num 12950) \<and>
   deductionUsed (exampleData\<lparr>deductions := Some (Num (- 100))\<rparr>) = Num (- 100) \<and>
   taxableIncome (exampleData\<lparr>deductions := Some (Num (- 100))\<rparr>) = Num 80150"
  by (simp add: spec_deductionUsed_def spec_standardDeduction_def tax_eval)

text \<open>
  Claim C10. As stated, a filing status that is not exactly single, married_separate or
  head_of_household (a casing variant such as Single, or a value outside the enumeration)
  gets a deduction of 25900 whenever no deductions value greater than 0 is supplied. The
  test in the source is on zero, not on the sign. What holds: such a filing status gets a
  deduction of 25900 whenever the deductions value is absent or 0.
\<close>

theorem C10_unrecognised_status_deduction:
  "filingStatus d \<noteq> ''single'' \<Longrightarrow> filingStatus d \<noteq> ''married_separate'' \<Longrightarrow>
   filingStatus d \<noteq> ''head_of_household'' \<Longrightarrow>
   deductions d = None \<or> deductions d = Some (Num 0) \<Longrightarrow>
   deductionUsed d = Num 25900 \<and>
   taxableIncome d = mathMax0 (jsSub (adjustedGrossIncome d) (Num 25900))"
proof -
  assume st: "filingStatus d \<noteq> ''single''" "filingStatus d \<noteq> ''married_separate''"
    "filingStatus d \<noteq> ''head_of_household''"
  assume ded: "deductions d = None \<or> deductions d = Some (Num 0)"
  have "standardDeduction d = Num 25900"
    using st by (simp add: standardDeduction_def)
  then have "deductionUsed d = Num 25900"
    using ded by (auto simp: deductionUsed_eq orElse_def)
  then show ?thesis
    by (simp add: taxableIncome_deductionUsed)
qed

text \<open>
  C10 at the example return with the filing status written Single: the deduction is 25900
  and the taxable income 80050 - 25900; and with a status outside the enumeration and
  deductions of 0.
\<close>

theorem C10_unrecognised_status_witness:
  "deductionUsed (exampleData\<lparr>filingStatus := ''Single''\<rparr>) = Num 25900 \<and>
   taxableIncome (exampleData\<lparr>filingStatus := ''Single''\<rparr>) = Num 54150 \<and>
   deductionUsed (exampleData\<lparr>filingStatus := ''widowed'', deductions := Some (Num 0)\<rparr>) =
     Num 25900"
proof -
  let ?d = "exampleData\<lparr>filingStatus := ''Single''\<rparr>"
  let ?e = "exampleData\<lparr>filingStatus := ''widowed'', deductions := Some (Num 0)\<rparr>"
  have agi: "adjustedGrossIncome ?d = Num 80050"
    by (simp add: tax_eval)
  have "deductionUsed ?d = Num 25900 \<and>
      taxableIncome ?d = mathMax0 (jsSub (adjustedGrossIncome ?d) (Num 25900))"
    by (rule C10_unrecognised_status_deduction) (simp_all add: exampleData_def)
  moreover have "deductionUsed ?e = Num 25900 \<and>
      taxableIncome ?e = mathMax0 (jsSub (adjustedGrossIncome ?e) (Num 25900))"
    by (rule C10_unrecognised_status_deduction) (simp_all add: exampleData_def)
  ultimately show ?thesis
    using agi by (simp add: num_eval)
qed

text \<open>
  C10 as stated fails on a negative deductions value: with the filing status Single and
  deductions of -100, no value greater than 0 is supplied, and the deduction used is -100,
  not 25900.
\<close>

theorem C10_negative_deduction_counterexample:
  "filingStatus (exampleData\<lparr>filingStatus := ''Single'', deductions := Some (Num (- 100))\<rparr>) =
     ''Single'' \<and>
   deductions (exampleData\<lparr>filingStatus := ''Single'', deductions := Some (Num (- 100))\<rparr>) =
     Some (Num (- 100)) \<and>
   deductionUsed (exampleData\<lparr>filingStatus := ''Single'', deductions := Some (Num (- 100))\<rparr>) =
     Num (- 100)"
  by (simp add: exampleData_def deductionUsed_eq orElse_def)

section \<open>Properties of the merge\<close>

lemmas merge_eval =
  mergeDocs_def mergeDoc_def docEntries_def mergeable_def analysedDoc_def mergeEntry_def
  notSet_def formDataGet_def objectPrototypeKeys_def

text \<open>The pushes of the second loop are a filter of the required fields, in their order.\<close>

lemma push_fold_filter:
  "fold (\<lambda>x acc. if P x then acc @ [x] else acc) xs acc = acc @ filter P xs"
  by (induction xs arbitrary: acc) simp_all

lemma missingFields_filter: "missingFields fd = filter (notSet fd) requiredFields"
  by (simp add: missingFields_def push_fold_filter)

text \<open>A field that counts as set is never written again.\<close>

lemma mergeEntry_own_set: "\<not> notSet fd k \<Longrightarrow> mergeEntry e fd k = fd k"
  by (cases e) (auto simp: mergeEntry_def)

lemma mergeEntry_keeps_set: "\<not> notSet fd k \<Longrightarrow> \<not> notSet (mergeEntry e fd) k"
  by (simp add: notSet_def formDataGet_def mergeEntry_own_set)

lemma fold_mergeEntry_keeps_set: "\<not> notSet fd k \<Longrightarrow> \<not> notSet (fold mergeEntry es fd) k"
  by (induction es arbitrary: fd) (simp_all add: mergeEntry_keeps_set)

lemma fold_mergeEntry_own_set: "\<not> notSet fd k \<Longrightarrow> fold mergeEntry es fd k = fd k"
  by (induction es arbitrary: fd) (simp_all add: mergeEntry_keeps_set mergeEntry_own_set)

lemma mergeDoc_keeps_set: "\<not> notSet fd k \<Longrightarrow> \<not> notSet (mergeDoc doc fd) k"
  by (simp add: mergeDoc_def fold_mergeEntry_keeps_set)

lemma mergeDocs_snoc: "mergeDocs (S @ [d]) = mergeDoc d (mergeDocs S)"
  by (simp add: mergeDocs_def)

lemma fold_mergeDoc_flat:
  "fold mergeDoc docs fd = fold mergeEntry (concat (map docEntries docs)) fd"
  by (induction docs arbitrary: fd) (simp_all add: mergeDoc_def)

lemma mergeDocs_flat:
  "mergeDocs docs = fold mergeEntry (concat (map docEntries docs)) Map.empty"
  by (simp add: mergeDocs_def fold_mergeDoc_flat)

lemma notSet_empty: "k \<notin> set objectPrototypeKeys \<Longrightarrow> notSet Map.empty k"
  by (simp add: notSet_def formDataGet_def)

lemma fieldVocabulary_not_inherited:
  "k \<in> set fieldVocabulary \<Longrightarrow> k \<notin> set objectPrototypeKeys"
  by (auto simp: fieldVocabulary_def objectPrototypeKeys_def)

lemma requiredFields_vocabulary: "set requiredFields \<subseteq> set fieldVocabulary"
  by (simp add: requiredFields_def fieldVocabulary_def)

lemma numericFields_vocabulary: "set numericFields \<subseteq> set fieldVocabulary"
  by (simp add: numericFields_def fieldVocabulary_def)

text \<open>
  What the loop does guarantee: the first truthy value of a field, in the order of the
  documents and of their entries, is the merged value.
\<close>

lemma fold_mergeEntry_first_truthy:
  "notSet fd k \<Longrightarrow> find (\<lambda>e. fst e = k \<and> truthy (snd e)) es = Some (k', v) \<Longrightarrow>
   fold mergeEntry es fd k = Some v"
proof (induction es arbitrary: fd)
  case Nil
  then show ?case by simp
next
  case (Cons e es)
  obtain key val where e: "e = (key, val)" by (cases e)
  show ?case
  proof (cases "key = k \<and> truthy val")
    case True
    then have v: "val = v" using Cons.prems(2) e by simp
    have nn: "val \<noteq> JNull" using True by auto
    have upd: "mergeEntry e fd = fd(k \<mapsto> v)"
      using True Cons.prems(1) nn v by (simp add: mergeEntry_def e)
    have "\<not> notSet (fd(k \<mapsto> v)) k"
      using True v by (auto simp: notSet_def formDataGet_def)
    then have "fold mergeEntry es (fd(k \<mapsto> v)) k = (fd(k \<mapsto> v)) k"
      by (rule fold_mergeEntry_own_set)
    then show ?thesis using upd by simp
  next
    case False
    then have f: "find (\<lambda>e. fst e = k \<and> truthy (snd e)) es = Some (k', v)"
      using Cons.prems(2) e by auto
    have "notSet (mergeEntry e fd) k"
      using False Cons.prems(1) e
      by (auto simp: mergeEntry_def notSet_def formDataGet_def split: option.splits if_splits)
    then show ?thesis using f Cons.IH by simp
  qed
qed

lemma mergeDocs_first_truthy_wins:
  "k \<notin> set objectPrototypeKeys \<Longrightarrow>
   find (\<lambda>e. fst e = k \<and> truthy (snd e)) (concat (map docEntries docs)) = Some (k', v) \<Longrightarrow>
   mergeDocs docs k = Some v"
  unfolding mergeDocs_flat by (rule fold_mergeEntry_first_truthy [OF notSet_empty])

lemma mergeEntry_null_or_other:
  "(fst e = k \<longrightarrow> snd e = JNull) \<Longrightarrow> mergeEntry e fd k = fd k"
  by (cases e) (auto simp: mergeEntry_def)

text \<open>
  Exactly which fields count as not set after the merge, hence which are reported
  missing: those for which no merged document has a truthy value. The order of the
  documents plays no part, and more documents never give more missing fields.
\<close>

lemma notSet_mergeEntry_iff:
  "notSet (mergeEntry e fd) k \<longleftrightarrow> notSet fd k \<and> (fst e = k \<longrightarrow> \<not> truthy (snd e))"
proof (cases e)
  case (Pair key val)
  show ?thesis
  proof (cases "key = k")
    case True
    show ?thesis
    proof (cases "val \<noteq> JNull \<and> notSet fd k")
      case True
      then have "mergeEntry e fd = fd(k \<mapsto> val)"
        using Pair \<open>key = k\<close> by (simp add: mergeEntry_def)
      moreover have "notSet (fd(k \<mapsto> val)) k \<longleftrightarrow> \<not> truthy val"
        using True by (auto simp: notSet_def formDataGet_def)
      ultimately show ?thesis
        using True Pair \<open>key = k\<close> by simp
    next
      case False
      then have "mergeEntry e fd = fd"
        using Pair \<open>key = k\<close> by (auto simp: mergeEntry_def)
      then show ?thesis
        using False Pair by auto
    qed
  next
    case False
    then have "formDataGet (mergeEntry e fd) k = formDataGet fd k"
      using Pair by (simp add: mergeEntry_def formDataGet_def)
    then show ?thesis
      using False Pair by (simp add: notSet_def)
  qed
qed

lemma notSet_fold_mergeEntry_iff:
  "notSet (fold mergeEntry es fd) k \<longleftrightarrow>
     notSet fd k \<and> (\<forall>v. (k, v) \<in> set es \<longrightarrow> \<not> truthy v)"
proof (induction es arbitrary: fd)
  case Nil
  show ?case by simp
next
  case (Cons e es)
  have "notSet (fold mergeEntry (e # es) fd) k \<longleftrightarrow>
      notSet (mergeEntry e fd) k \<and> (\<forall>v. (k, v) \<in> set es \<longrightarrow> \<not> truthy v)"
    using Cons.IH by simp
  also have "\<dots> \<longleftrightarrow> (notSet fd k \<and> (fst e = k \<longrightarrow> \<not> truthy (snd e))) \<and>
      (\<forall>v. (k, v) \<in> set es \<longrightarrow> \<not> truthy v)"
    by (simp only: notSet_mergeEntry_iff)
  also have "\<dots> \<longleftrightarrow> notSet fd k \<and> (\<forall>v. (k, v) \<in> set (e # es) \<longrightarrow> \<not> truthy v)"
    by (cases e) auto
  finally show ?case .
qed

lemma notSet_mergeDocs_iff:
  "notSet (mergeDocs docs) k \<longleftrightarrow>
     k \<notin> set objectPrototypeKeys \<and>
     (\<forall>doc \<in> set docs. \<forall>v. (k, v) \<in> set (docEntries doc) \<longrightarrow> \<not> truthy v)"
proof -
  have "notSet Map.empty k \<longleftrightarrow> k \<notin> set objectPrototypeKeys"
    by (simp add: notSet_def formDataGet_def inheritedMember_def)
  then show ?thesis
    unfolding mergeDocs_flat notSet_fold_mergeEntry_iff by auto
qed

lemma missingFields_mergeDocs:
  "missingFields (mergeDocs docs) =
     filter (\<lambda>k. \<forall>doc \<in> set docs. \<forall>v. (k, v) \<in> set (docEntries doc) \<longrightarrow> \<not> truthy v)
       requiredFields"
proof -
  have "\<forall>k \<in> set requiredFields. k \<notin> set objectPrototypeKeys"
    using fieldVocabulary_not_inherited requiredFields_vocabulary by blast
  then show ?thesis
    unfolding missingFields_filter by (intro filter_cong) (auto simp: notSet_mergeDocs_iff)
qed

lemma missingFields_more_documents:
  "set docs \<subseteq> set docs' \<Longrightarrow>
   set (missingFields (mergeDocs docs')) \<subseteq> set (missingFields (mergeDocs docs))"
  unfolding missingFields_mergeDocs by auto

text \<open>
  When no entry of a field is truthy, each non-null entry overwrites the one before: the
  merged value is the last non-null entry, if there is one.
\<close>

lemma fold_mergeEntry_no_truthy:
  "notSet fd k \<Longrightarrow> \<forall>v. (k, v) \<in> set es \<longrightarrow> \<not> truthy v \<Longrightarrow>
   fold mergeEntry es fd k =
     (case find (\<lambda>e. fst e = k \<and> snd e \<noteq> JNull) (rev es) of
        None \<Rightarrow> fd k
      | Some e \<Rightarrow> Some (snd e))"
proof (induction es rule: rev_induct)
  case Nil
  show ?case by simp
next
  case (snoc e es)
  have ns: "notSet (fold mergeEntry es fd) k"
    using snoc.prems by (simp add: notSet_fold_mergeEntry_iff)
  have IH: "fold mergeEntry es fd k =
     (case find (\<lambda>e. fst e = k \<and> snd e \<noteq> JNull) (rev es) of
        None \<Rightarrow> fd k
      | Some e \<Rightarrow> Some (snd e))"
    using snoc.prems by (intro snoc.IH) auto
  show ?case
  proof (cases "fst e = k \<and> snd e \<noteq> JNull")
    case True
    then have "mergeEntry e (fold mergeEntry es fd) k = Some (snd e)"
      using ns by (cases e) (simp add: mergeEntry_def)
    then show ?thesis using True by simp
  next
    case False
    then have "mergeEntry e (fold mergeEntry es fd) k = fold mergeEntry es fd k"
      by (intro mergeEntry_null_or_other) auto
    then show ?thesis using False IH by auto
  qed
qed

text \<open>
  Claim C1: the merged value of a field is the first non-null value in the order of the
  documents, never overwritten later; [A, B] with different non-null wages gives A's.
  The comment in the source says the same ("Only update if the field is not already set
  or is null"), but the test \<open>!formData[key]\<close> also holds for a field set to 0, to the
  empty string or to false. With A's wages 0 and B's wages 5000, both non-null, the merge
  of [A, B] gives B's wages, as the merge of [B, A] does.
\<close>

theorem C1_zero_wages_overwritten:
  "mergeDocs [analysedDoc ''A'' ''a.pdf'' (JObj [(''wages'', JNum 0)]),
              analysedDoc ''B'' ''b.pdf'' (JObj [(''wages'', JNum 5000)])] ''wages'' =
     Some (JNum 5000) \<and>
   mergeDocs [analysedDoc ''B'' ''b.pdf'' (JObj [(''wages'', JNum 5000)]),
              analysedDoc ''A'' ''a.pdf'' (JObj [(''wages'', JNum 0)])] ''wages'' =
     Some (JNum 5000)"
  by (simp add: merge_eval)

text \<open>
  Claim C3: the missing fields are exactly the required fields whose merged value is
  absent or null, in the order of the required-field list. The order is that of the list
  (\<open>missingFields_filter\<close>), but the test \<open>!formData[field]\<close> also reports a field whose
  merged value is 0, the empty string or false. One document supplies all twelve required
  fields, with an interest of 0: the merged interest is 0, yet interest is reported
  missing.
\<close>

theorem C3_zero_interest_reported_missing:
  "mergeDocs [analysedDoc ''A'' ''w2.pdf''
       (JObj [(''firstName'', JStr ''John''), (''lastName'', JStr ''Doe''),
              (''ssn'', JStr ''123456789''), (''filingStatus'', JStr ''single''),
              (''address'', JStr ''123 Main St''), (''city'', JStr ''Anytown''),
              (''state'', JStr ''CA''), (''zip'', JStr ''12345''),
              (''wages'', JNum 75000), (''interest'', JNum 0),
              (''dividends'', JNum 850), (''capitalGains'', JNum 3000)])] ''interest'' =
     Some (JNum 0) \<and>
   missingFields (mergeDocs [analysedDoc ''A'' ''w2.pdf''
       (JObj [(''firstName'', JStr ''John''), (''lastName'', JStr ''Doe''),
              (''ssn'', JStr ''123456789''), (''filingStatus'', JStr ''single''),
              (''address'', JStr ''123 Main St''), (''city'', JStr ''Anytown''),
              (''state'', JStr ''CA''), (''zip'', JStr ''12345''),
              (''wages'', JNum 75000), (''interest'', JNum 0),
              (''dividends'', JNum 850), (''capitalGains'', JNum 3000)])]) =
     [''interest'']"
  by (simp add: merge_eval missingFields_def requiredFields_def)

subsection \<open>Fields that no document supplies\<close>

lemma fold_mergeEntry_unsupplied:
  "(\<forall>v. (k, v) \<in> set es \<longrightarrow> v = JNull) \<Longrightarrow> fold mergeEntry es fd k = fd k"
proof (induction es arbitrary: fd)
  case Nil
  show ?case by simp
next
  case (Cons e es)
  have "fst e = k \<longrightarrow> snd e = JNull"
    using Cons.prems by (cases e) auto
  then have "mergeEntry e fd k = fd k"
    by (rule mergeEntry_null_or_other)
  moreover have "fold mergeEntry es (mergeEntry e fd) k = mergeEntry e fd k"
    using Cons.prems by (intro Cons.IH) auto
  ultimately show ?case by simp
qed

lemma fold_mergeDoc_unsupplied:
  "(\<forall>doc \<in> set docs. \<forall>v. (k, v) \<in> set (docEntries doc) \<longrightarrow> v = JNull) \<Longrightarrow>
   fold mergeDoc docs fd k = fd k"
proof (induction docs arbitrary: fd)
  case Nil
  show ?case by simp
next
  case (Cons doc docs)
  have "mergeDoc doc fd k = fd k"
    unfolding mergeDoc_def using Cons.prems by (intro fold_mergeEntry_unsupplied) auto
  moreover have "fold mergeDoc docs (mergeDoc doc fd) k = mergeDoc doc fd k"
    using Cons.prems by (intro Cons.IH) auto
  ultimately show ?case by simp
qed

lemma mergeDocs_unsupplied:
  "(\<forall>doc \<in> set docs. \<forall>v. (k, v) \<in> set (docEntries doc) \<longrightarrow> v = JNull) \<Longrightarrow>
   mergeDocs docs k = None"
  unfolding mergeDocs_def by (simp add: fold_mergeDoc_unsupplied)

text \<open>
  Claim C6. As stated, a numeric field that no document supplied has the value 0 in the
  merged record, while identity, address and filing-status fields are left absent. The
  merge starts from the empty object and writes nothing but values found in documents:
  there is no default. What holds: every field of the vocabulary, numeric or not, that no
  merged document supplies with a non-null value is absent from the merged record, and is
  reported missing when it is required.
\<close>

theorem C6_unsupplied_fields_absent:
  "k \<in> set fieldVocabulary \<Longrightarrow>
   (\<forall>doc \<in> set docs. \<forall>v. (k, v) \<in> set (docEntries doc) \<longrightarrow> v = JNull) \<Longrightarrow>
   formDataGet (mergeDocs docs) k = None \<and>
   (k \<in> set requiredFields \<longrightarrow> k \<in> set (missingFields (mergeDocs docs)))"
proof -
  assume voc: "k \<in> set fieldVocabulary"
  assume unsupplied: "\<forall>doc \<in> set docs. \<forall>v. (k, v) \<in> set (docEntries doc) \<longrightarrow> v = JNull"
  have "mergeDocs docs k = None"
    using unsupplied by (rule mergeDocs_unsupplied)
  then have absent: "formDataGet (mergeDocs docs) k = None"
    using fieldVocabulary_not_inherited [OF voc] by (simp add: formDataGet_def)
  then have "notSet (mergeDocs docs) k"
    by (simp add: notSet_def)
  then show ?thesis
    using absent by (simp add: missingFields_filter)
qed

text \<open>
  C6 at a batch of one document that gives a first name and a null wages: wages is absent
  from the merged record and reported missing; the first name is there.
\<close>

theorem C6_unsupplied_fields_witness:
  "formDataGet (mergeDocs [analysedDoc ''A'' ''id.pdf''
       (JObj [(''firstName'', JStr ''John''), (''wages'', JNull)])]) ''wages'' = None \<and>
   ''wages'' \<in> set (missingFields (mergeDocs [analysedDoc ''A'' ''id.pdf''
       (JObj [(''firstName'', JStr ''John''), (''wages'', JNull)])])) \<and>
   formDataGet (mergeDocs [analysedDoc ''A'' ''id.pdf''
       (JObj [(''firstName'', JStr ''John''), (''wages'', JNull)])]) ''firstName'' =
     Some (JStr ''John'')"
proof -
  let ?docs =
    "[analysedDoc ''A'' ''id.pdf'' (JObj [(''firstName'', JStr ''John''), (''wages'', JNull)])]"
  have voc: "''wages'' \<in> set fieldVocabulary"
    by (simp add: fieldVocabulary_def)
  have req: "''wages'' \<in> set requiredFields"
    by (simp add: requiredFields_def)
  have unsupplied:
    "\<forall>doc \<in> set ?docs. \<forall>v. (''wages'', v) \<in> set (docEntries doc) \<longrightarrow> v = JNull"
    by (simp add: docEntries_def mergeable_def analysedDoc_def)
  have "formDataGet (mergeDocs ?docs) ''firstName'' = Some (JStr ''John'')"
    by (simp add: merge_eval)
  then show ?thesis
    using req C6_unsupplied_fields_absent [OF voc unsupplied] by blast
qed

text \<open>
  C6 as stated fails on its numeric half: the only document of the batch gives a first
  name and no wages, and the merged record has no wages at all, not wages of 0.
\<close>

theorem C6_unsupplied_wages_counterexample:
  "''wages'' \<in> set numericFields \<and>
   formDataGet (mergeDocs [analysedDoc ''A'' ''id.pdf'' (JObj [(''firstName'', JStr ''John'')])])
     ''wages'' = None \<and>
   formDataGet (mergeDocs [analysedDoc ''A'' ''id.pdf'' (JObj [(''firstName'', JStr ''John'')])])
     ''wages'' \<noteq> Some (JNum 0)"
  by (simp add: merge_eval numericFields_def)

text \<open>
  Claim C7. For every sequence of documents S and every further document d, the missing
  fields of S with d appended are among the missing fields of S: a further document can
  only remove entries.
\<close>

theorem C7_missing_fields_monotone:
  "set (missingFields (mergeDocs (S @ [d]))) \<subseteq> set (missingFields (mergeDocs S))"
  using mergeDoc_keeps_set [of "mergeDocs S" _ d]
  by (auto simp: missingFields_filter mergeDocs_snoc)

text \<open>
  C7 at a batch of one document with wages, to which a document with wages and interest
  is appended.
\<close>

theorem C7_missing_fields_witness:
  "missingFields (mergeDocs [analysedDoc ''A'' ''w2.pdf'' (JObj [(''wages'', JNum 75000)])]) =
     [''firstName'', ''lastName'', ''ssn'', ''filingStatus'', ''address'', ''city'', ''state'',
      ''zip'', ''interest'', ''dividends'', ''capitalGains''] \<and>
   set (missingFields (mergeDocs
          ([analysedDoc ''A'' ''w2.pdf'' (JObj [(''wages'', JNum 75000)])] @
           [analysedDoc ''B'' ''1099.pdf''
              (JObj [(''wages'', JNum 100), (''interest'', JNum 1200)])])))
     \<subseteq> set (missingFields (mergeDocs
          [analysedDoc ''A'' ''w2.pdf'' (JObj [(''wages'', JNum 75000)])]))"
proof -
  have "missingFields (mergeDocs [analysedDoc ''A'' ''w2.pdf'' (JObj [(''wages'', JNum 75000)])]) =
     [''firstName'', ''lastName'', ''ssn'', ''filingStatus'', ''address'', ''city'', ''state'',
      ''zip'', ''interest'', ''dividends'', ''capitalGains'']"
    by (simp add: merge_eval missingFields_def requiredFields_def)
  then show ?thesis
    using C7_missing_fields_monotone
      [of "[analysedDoc ''A'' ''w2.pdf'' (JObj [(''wages'', JNum 75000)])]"
          "analysedDoc ''B'' ''1099.pdf''
             (JObj [(''wages'', JNum 100), (''interest'', JNum 1200)])"]
    by blast
qed

section \<open>Properties of the extraction\<close>

text \<open>
  The search for the two patterns, against the texts that contain them: \<open>splitOn\<close> finds
  the leftmost occurrence, and no match means that the text has no such part.
\<close>

lemma splitOn_Some: "splitOn pat s = Some (a, b) \<Longrightarrow> s = a @ pat @ b"
proof (induction s arbitrary: a)
  case Nil
  then show ?case by (simp split: if_splits)
next
  case (Cons c cs)
  show ?case
  proof (cases "take (length pat) (c # cs) = pat")
    case True
    then have "a = []" "b = drop (length pat) (c # cs)"
      using Cons.prems by simp_all
    then show ?thesis
      using True append_take_drop_id [of "length pat" "c # cs"] by simp
  next
    case False
    then obtain a' where "splitOn pat cs = Some (a', b)" "a = c # a'"
      using Cons.prems by (auto split: option.splits)
    then show ?thesis
      using Cons.IH by simp
  qed
qed

lemma splitOn_None: "splitOn pat s = None \<Longrightarrow> s \<noteq> a @ pat @ b"
proof (induction s arbitrary: a)
  case Nil
  then show ?case by (auto split: if_splits)
next
  case (Cons c cs)
  note IH = Cons.IH
  have nt: "take (length pat) (c # cs) \<noteq> pat" and rest: "splitOn pat cs = None"
    using Cons.prems by (auto split: if_splits)
  show ?case
  proof
    assume eq: "c # cs = a @ pat @ b"
    show False
    proof (cases a)
      case Nil
      then have "take (length pat) (c # cs) = pat"
        using eq by simp
      then show False using nt by simp
    next
      case (Cons x a')
      then have "cs = a' @ pat @ b"
        using eq by simp
      then show False
        using IH [OF rest, of a'] by simp
    qed
  qed
qed

lemma splitOn_leftmost:
  "splitOn pat s = Some (before, rest) \<Longrightarrow> s = a @ pat @ b \<Longrightarrow> length before \<le> length a"
proof (induction s arbitrary: before a)
  case Nil
  then show ?case by (simp split: if_splits)
next
  case (Cons c cs)
  note IH = Cons.IH
  show ?case
  proof (cases "take (length pat) (c # cs) = pat")
    case True
    then show ?thesis using Cons.prems(1) by simp
  next
    case False
    then obtain before' where b: "splitOn pat cs = Some (before', rest)" "before = c # before'"
      using Cons.prems(1) by (auto split: option.splits)
    show ?thesis
    proof (cases a)
      case Nil
      then have "take (length pat) (c # cs) = pat"
        using Cons.prems(2) by simp
      then show ?thesis using False by simp
    next
      case (Cons x a')
      then have "cs = a' @ pat @ b"
        using Cons.prems(2) by simp
      then have "length before' \<le> length a'"
        using IH [OF b(1)] by simp
      then show ?thesis using b(2) Cons by simp
    qed
  qed
qed

lemma matchFenced_None:
  "matchFenced str = None \<Longrightarrow> str \<noteq> a @ fenceOpen @ g @ fenceClose @ b"
proof
  assume none: "matchFenced str = None" and eq: "str = a @ fenceOpen @ g @ fenceClose @ b"
  show False
  proof (cases "splitOn fenceOpen str")
    case None
    then show False
      using splitOn_None [of fenceOpen str a "g @ fenceClose @ b"] eq by simp
  next
    case (Some p)
    obtain before rest where p: "p = (before, rest)" by (cases p)
    have closeNone: "splitOn fenceClose rest = None"
      using none Some p by (auto simp: matchFenced_def split: option.splits)
    have t: "str = before @ fenceOpen @ rest"
      using splitOn_Some Some p by simp
    have le: "length before \<le> length a"
      using splitOn_leftmost [of fenceOpen str before rest a "g @ fenceClose @ b"] Some p eq
      by simp
    have "rest = drop (length before + length fenceOpen) str"
      using t by simp
    also have "\<dots> = drop (length before + length fenceOpen) (a @ fenceOpen) @ g @ fenceClose @ b"
      using eq le by simp
    finally have "rest = (drop (length before + length fenceOpen) (a @ fenceOpen) @ g) @ fenceClose @ b"
      by simp
    then show False
      using splitOn_None [OF closeNone] by blast
  qed
qed

lemma drop_append_le: "n \<le> length xs \<Longrightarrow> drop n (xs @ ys) = drop n xs @ ys"
  by simp

lemma matchBraces_None:
  "matchBraces str = None \<Longrightarrow> str \<noteq> a @ ''{'' @ g @ ''}'' @ b"
proof
  assume none: "matchBraces str = None" and eq: "str = a @ ''{'' @ g @ ''}'' @ b"
  let ?P = "\<lambda>c. c \<noteq> CHR ''{''"
  define tw where "tw = takeWhile ?P str"
  have "CHR ''{'' \<in> set str"
    using eq by simp
  then have "dropWhile ?P str \<noteq> []"
    by (auto simp: dropWhile_eq_Nil_conv)
  then obtain c rest where d: "dropWhile ?P str = c # rest"
    by (cases "dropWhile ?P str") auto
  have noClose: "CHR ''}'' \<notin> set rest"
    using none d by (auto simp: matchBraces_def split: if_splits)
  have t: "str = tw @ c # rest"
    unfolding tw_def using d takeWhile_dropWhile_id [of ?P str] by simp
  have le: "length tw \<le> length a"
  proof (rule ccontr)
    assume "\<not> length tw \<le> length a"
    then have lt: "length a < length (takeWhile ?P str)"
      by (simp add: tw_def)
    then have "takeWhile ?P str ! length a \<in> set (takeWhile ?P str)"
      by (rule nth_mem)
    then have "?P (takeWhile ?P str ! length a)"
      by (rule set_takeWhileD [THEN conjunct2])
    moreover have "takeWhile ?P str ! length a = str ! length a"
      using lt by (rule takeWhile_nth)
    moreover have "str ! length a = CHR ''{''"
      unfolding eq by simp
    ultimately show False by simp
  qed
  have "drop (length tw + 1) (tw @ c # rest) = rest"
    by simp
  then have "rest = drop (length tw + 1) str"
    using t by simp
  also have "\<dots> = drop (length tw + 1) (a @ ''{'' @ g @ ''}'' @ b)"
    unfolding eq ..
  also have "\<dots> = drop (length tw + 1) ((a @ ''{'') @ (g @ ''}'' @ b))"
    by simp
  also have "\<dots> = drop (length tw + 1) (a @ ''{'') @ (g @ ''}'' @ b)"
    using le by (intro drop_append_le) simp
  finally have "CHR ''}'' \<in> set rest"
    by simp
  then show False using noClose by simp
qed

lemma matchFenced_Some:
  "matchFenced str = Some m \<Longrightarrow> \<exists>a g b. str = a @ fenceOpen @ g @ fenceClose @ b"
proof -
  assume "matchFenced str = Some m"
  then obtain before rest grp after where
    "splitOn fenceOpen str = Some (before, rest)" "splitOn fenceClose rest = Some (grp, after)"
    by (auto simp: matchFenced_def split: option.splits)
  then have "str = before @ fenceOpen @ rest" "rest = grp @ fenceClose @ after"
    by (auto dest: splitOn_Some)
  then show ?thesis by blast
qed

lemma matchBraces_Some:
  "matchBraces str = Some m \<Longrightarrow> \<exists>a g b. str = a @ ''{'' @ g @ ''}'' @ b"
proof -
  let ?P = "\<lambda>c. c \<noteq> CHR ''{''"
  assume "matchBraces str = Some m"
  then obtain c rest where d: "dropWhile ?P str = c # rest" and cl: "CHR ''}'' \<in> set rest"
    by (auto simp: matchBraces_def split: list.splits if_splits)
  have c: "c = CHR ''{''"
    using hd_dropWhile [of ?P str] d by auto
  obtain g b where r: "rest = g @ CHR ''}'' # b"
    using cl by (auto dest: split_list)
  have "takeWhile ?P str @ c # rest = str"
    using d takeWhile_dropWhile_id [of ?P str] by simp
  then have "takeWhile ?P str @ ''{'' @ g @ ''}'' @ b = str"
    using c r by simp
  then have "str = takeWhile ?P str @ ''{'' @ g @ ''}'' @ b"
    by (rule sym)
  then show ?thesis by blast
qed

lemma jsonMatch_None_iff:
  "jsonMatch str = None \<longleftrightarrow>
     (\<forall>a g b. str \<noteq> a @ fenceOpen @ g @ fenceClose @ b) \<and>
     (\<forall>a g b. str \<noteq> a @ ''{'' @ g @ ''}'' @ b)"
proof
  assume "jsonMatch str = None"
  then have "matchFenced str = None" "matchBraces str = None"
    by (auto simp: jsonMatch_def split: option.splits)
  then show "(\<forall>a g b. str \<noteq> a @ fenceOpen @ g @ fenceClose @ b) \<and>
     (\<forall>a g b. str \<noteq> a @ ''{'' @ g @ ''}'' @ b)"
    using matchFenced_None matchBraces_None by blast
next
  assume no: "(\<forall>a g b. str \<noteq> a @ fenceOpen @ g @ fenceClose @ b) \<and>
     (\<forall>a g b. str \<noteq> a @ ''{'' @ g @ ''}'' @ b)"
  have "matchFenced str = None"
    using no matchFenced_Some [of str] by (cases "matchFenced str") auto
  moreover have "matchBraces str = None"
    using no matchBraces_Some [of str] by (cases "matchBraces str") auto
  ultimately show "jsonMatch str = None"
    by (simp add: jsonMatch_def)
qed

lemma processText_no_json:
  "jsonMatch str = None \<Longrightarrow>
   processText jsonParse dbOk did fname str =
     (if dbOk then analysedDoc did fname fallbackAnalysis else parseFailedDoc did fname str)"
  by (simp add: processText_def)

lemma processText_parsed:
  "jsonMatch str = Some m \<Longrightarrow> jsonParse (trim (jsonStr m)) = Some a \<Longrightarrow>
   processText jsonParse True did fname str = analysedDoc did fname a"
  by (simp add: processText_def)

lemma processText_parse_throws:
  "jsonMatch str = Some m \<Longrightarrow> jsonParse (trim (jsonStr m)) = None \<Longrightarrow>
   processText jsonParse dbOk did fname str = parseFailedDoc did fname str"
  by (simp add: processText_def)

text \<open>
  A text with neither a fenced block nor braces gives a document whose analysis is the
  error marker alone; nothing is thrown.
\<close>

lemma no_json_gives_marker:
  "\<forall>a g b. str \<noteq> a @ fenceOpen @ g @ fenceClose @ b \<Longrightarrow>
   \<forall>a g b. str \<noteq> a @ ''{'' @ g @ ''}'' @ b \<Longrightarrow>
   processText jsonParse True did fname str = analysedDoc did fname fallbackAnalysis"
  by (simp add: processText_no_json jsonMatch_None_iff)

text \<open>
  A document that the \<open>catch\<close> returned is skipped by the merge. A document with the
  marker as its analysis is not skipped: it leaves every field but \<open>error\<close>, and the
  missing fields, as they are without it.
\<close>

lemma mergeDoc_failed: "mergeDoc (parseFailedDoc did fname str) fd = fd"
  by (simp add: mergeDoc_def docEntries_def mergeable_def parseFailedDoc_def)

lemma mergeEntry_local: "fd k = fd' k \<Longrightarrow> mergeEntry e fd k = mergeEntry e fd' k"
  by (cases e) (auto simp: mergeEntry_def notSet_def formDataGet_def)

lemma fold_mergeEntry_local:
  "fd k = fd' k \<Longrightarrow> fold mergeEntry es fd k = fold mergeEntry es fd' k"
proof (induction es arbitrary: fd fd')
  case Nil
  then show ?case by simp
next
  case (Cons e es)
  have "mergeEntry e fd k = mergeEntry e fd' k"
    using Cons.prems by (rule mergeEntry_local)
  then have "fold mergeEntry es (mergeEntry e fd) k = fold mergeEntry es (mergeEntry e fd') k"
    by (rule Cons.IH)
  then show ?case by simp
qed

lemma fold_mergeDoc_local:
  "fd k = fd' k \<Longrightarrow> fold mergeDoc docs fd k = fold mergeDoc docs fd' k"
  unfolding fold_mergeDoc_flat by (rule fold_mergeEntry_local)

lemma docEntries_fallback:
  "docEntries (analysedDoc did fname fallbackAnalysis) =
     [(''error'', JStr ''Could not parse structured data from document'')]"
  by (simp add: docEntries_def mergeable_def analysedDoc_def fallbackAnalysis_def)

lemma mergeDoc_fallback_other_fields:
  "k \<noteq> ''error'' \<Longrightarrow> mergeDoc (analysedDoc did fname fallbackAnalysis) fd k = fd k"
  by (simp add: mergeDoc_def docEntries_fallback mergeEntry_def)

lemma mergeDocs_fallback_other_fields:
  "k \<noteq> ''error'' \<Longrightarrow>
   mergeDocs (pre @ [analysedDoc did fname fallbackAnalysis] @ post) k = mergeDocs (pre @ post) k"
proof -
  assume k: "k \<noteq> ''error''"
  have "mergeDocs (pre @ [analysedDoc did fname fallbackAnalysis] @ post) k =
      fold mergeDoc post
        (mergeDoc (analysedDoc did fname fallbackAnalysis) (fold mergeDoc pre Map.empty)) k"
    by (simp add: mergeDocs_def)
  also have "\<dots> = fold mergeDoc post (fold mergeDoc pre Map.empty) k"
    using k by (intro fold_mergeDoc_local mergeDoc_fallback_other_fields)
  also have "\<dots> = mergeDocs (pre @ post) k"
    by (simp add: mergeDocs_def)
  finally show ?thesis .
qed

lemma notSet_local: "fd k = fd' k \<Longrightarrow> notSet fd k = notSet fd' k"
  by (simp add: notSet_def formDataGet_def)

lemma missingFields_fallback:
  "missingFields (mergeDocs (pre @ [analysedDoc did fname fallbackAnalysis] @ post)) =
   missingFields (mergeDocs (pre @ post))"
proof -
  have "\<forall>k \<in> set requiredFields. k \<noteq> ''error''"
    by (simp add: requiredFields_def)
  then have "\<forall>k \<in> set requiredFields.
      notSet (mergeDocs (pre @ [analysedDoc did fname fallbackAnalysis] @ post)) k =
      notSet (mergeDocs (pre @ post)) k"
    using mergeDocs_fallback_other_fields [of _ pre did fname post]
    by (auto intro!: notSet_local)
  then show ?thesis
    unfolding missingFields_filter by (auto intro: filter_cong)
qed

lemmas text_eval =
  jsonMatch_def matchFenced_def matchBraces_def fenceOpen_def fenceClose_def jsonStr_def
  trim_def isWhiteSpace_def

lemma jsonMatch_exampleJson: "jsonMatch exampleJson = Some \<lparr>whole = exampleJson, group1 = None\<rparr>"
  by (simp add: text_eval exampleJson_def)

lemma trim_exampleJson: "trim exampleJson = exampleJson"
  by (simp add: text_eval exampleJson_def)

text \<open>
  Claim C8: a text with neither a fenced block nor braces gives a field set with an
  error marker and no parsed field, nothing is thrown, and the batch is still merged,
  over the documents without error markers only. The first half holds
  (\<open>no_json_gives_marker\<close>) and the batch is never aborted. But the marker is stored as
  the document's analysis, not as the document's \<open>error\<close>, which is what the merge loop
  tests and what the \<open>catch\<close> beside it sets: the marked document is merged, and its
  marker becomes a field \<open>error\<close> of the merged record. Here document A comes back as
  prose and document B as JSON.
\<close>

theorem C8_fallback_marker_merged:
  "snd (snd (extractTaxInfo exampleParse
     [\<lparr>docId = ''A'', docFilename = ''scan.pdf'',
        generated = Inr ''I cannot read this document.'', dbUpdateOk = True\<rparr>,
      \<lparr>docId = ''B'', docFilename = ''w2.pdf'',
        generated = Inr exampleJson, dbUpdateOk = True\<rparr>])) =
     [analysedDoc ''A'' ''scan.pdf''
        (JObj [(''error'', JStr ''Could not parse structured data from document'')]),
      analysedDoc ''B'' ''w2.pdf''
        (JObj [(''employer'', JStr ''ACME''), (''wages'', JStr ''75,000''),
               (''interest'', JNum 1200)])] \<and>
   fst (extractTaxInfo exampleParse
     [\<lparr>docId = ''A'', docFilename = ''scan.pdf'',
        generated = Inr ''I cannot read this document.'', dbUpdateOk = True\<rparr>,
      \<lparr>docId = ''B'', docFilename = ''w2.pdf'',
        generated = Inr exampleJson, dbUpdateOk = True\<rparr>]) ''error'' =
     Some (JStr ''Could not parse structured data from document'') \<and>
   fst (extractTaxInfo exampleParse
     [\<lparr>docId = ''A'', docFilename = ''scan.pdf'',
        generated = Inr ''I cannot read this document.'', dbUpdateOk = True\<rparr>,
      \<lparr>docId = ''B'', docFilename = ''w2.pdf'',
        generated = Inr exampleJson, dbUpdateOk = True\<rparr>]) ''interest'' =
     Some (JNum 1200)"
proof -
  have a: "processText exampleParse True ''A'' ''scan.pdf'' ''I cannot read this document.'' =
      analysedDoc ''A'' ''scan.pdf''
        (JObj [(''error'', JStr ''Could not parse structured data from document'')])"
    by (simp add: processText_def text_eval fallbackAnalysis_def)
  have b: "processText exampleParse True ''B'' ''w2.pdf'' exampleJson =
      analysedDoc ''B'' ''w2.pdf''
        (JObj [(''employer'', JStr ''ACME''), (''wages'', JStr ''75,000''),
               (''interest'', JNum 1200)])"
    by (rule processText_parsed [OF jsonMatch_exampleJson])
      (simp add: trim_exampleJson jsonStr_def exampleParse_def)
  show ?thesis
    by (simp add: extractTaxInfo_def Let_def processDocument_def a b merge_eval)
qed

subsection \<open>What is kept of the parsed value\<close>

lemma fold_mergeEntry_absent_key:
  "k \<notin> fst ` set es \<Longrightarrow> fold mergeEntry es fd k = fd k"
  by (rule fold_mergeEntry_unsupplied) force

lemma fold_mergeEntry_distinct:
  "distinct (map fst kvs) \<Longrightarrow> (k, v) \<in> set kvs \<Longrightarrow> v \<noteq> JNull \<Longrightarrow> notSet fd k \<Longrightarrow>
   fold mergeEntry kvs fd k = Some v"
proof (induction kvs arbitrary: fd)
  case Nil
  then show ?case by simp
next
  case (Cons e kvs)
  obtain key val where e: "e = (key, val)" by (cases e)
  show ?case
  proof (cases "key = k")
    case True
    have notin: "k \<notin> fst ` set kvs" using Cons.prems(1) e True by auto
    then have "val = v" using Cons.prems(2) e True by force
    then have "mergeEntry e fd = fd(k \<mapsto> v)"
      using Cons.prems(3,4) e True by (simp add: mergeEntry_def)
    then show ?thesis using fold_mergeEntry_absent_key [OF notin] by simp
  next
    case False
    then have "(k, v) \<in> set kvs" using Cons.prems(2) e by auto
    moreover have "notSet (mergeEntry e fd) k"
      using False Cons.prems(4) e by (auto simp: mergeEntry_def notSet_def formDataGet_def)
    moreover have "distinct (map fst kvs)" using Cons.prems(1) by simp
    ultimately show ?thesis using Cons.IH Cons.prems(3) by simp
  qed
qed

lemma mergeDocs_single_object:
  "distinct (map fst kvs) \<Longrightarrow> (k, v) \<in> set kvs \<Longrightarrow> v \<noteq> JNull \<Longrightarrow>
   k \<notin> set objectPrototypeKeys \<Longrightarrow>
   mergeDocs [analysedDoc did fname (JObj kvs)] k = Some v"
proof -
  assume d: "distinct (map fst kvs)" and m: "(k, v) \<in> set kvs" and n: "v \<noteq> JNull"
    and p: "k \<notin> set objectPrototypeKeys"
  have "docEntries (analysedDoc did fname (JObj kvs)) = kvs"
    by (simp add: docEntries_def mergeable_def analysedDoc_def)
  then have "mergeDocs [analysedDoc did fname (JObj kvs)] = fold mergeEntry kvs Map.empty"
    by (simp add: mergeDocs_def mergeDoc_def)
  then show ?thesis
    using fold_mergeEntry_distinct [OF d m n notSet_empty [OF p]] by simp
qed

lemma processText_db_failed:
  "processText jsonParse False did fname str = parseFailedDoc did fname str"
  by (simp add: processText_def split: option.splits)

lemma processText_kept:
  "jsonMatch str = Some m \<Longrightarrow> jsonParse (trim (jsonStr m)) = Some a \<Longrightarrow> dbOk \<Longrightarrow>
   processText jsonParse dbOk did fname str = analysedDoc did fname a"
  by (simp add: processText_def)

lemma docEntries_analysed:
  "docEntries (analysedDoc did fname a) = (if truthy a then objectEntries a else [])"
  by (simp add: docEntries_def mergeable_def analysedDoc_def)

lemma docEntries_failed: "docEntries (parseFailedDoc did fname str) = []"
  by (simp add: docEntries_def mergeable_def parseFailedDoc_def)

text \<open>
  The merged value of every name: none for a name that \<open>Object.prototype\<close> defines;
  otherwise the first truthy value among the entries of the documents in order, or, when
  none is truthy, the last value that is not null, or none.
\<close>

lemma mergeDocs_inherited: "k \<in> set objectPrototypeKeys \<Longrightarrow> mergeDocs docs k = None"
proof -
  assume "k \<in> set objectPrototypeKeys"
  then have "\<not> notSet Map.empty k"
    by (simp add: notSet_def formDataGet_def inheritedMember_def)
  then have "fold mergeEntry (concat (map docEntries docs)) Map.empty k = Map.empty k"
    by (rule fold_mergeEntry_own_set)
  then show ?thesis
    by (simp add: mergeDocs_flat)
qed

lemma mergeDocs_value:
  "mergeDocs docs k =
     (if k \<in> set objectPrototypeKeys then None
      else case find (\<lambda>e. fst e = k \<and> truthy (snd e)) (concat (map docEntries docs)) of
             Some e \<Rightarrow> Some (snd e)
           | None \<Rightarrow>
               (case find (\<lambda>e. fst e = k \<and> snd e \<noteq> JNull)
                       (rev (concat (map docEntries docs))) of
                  None \<Rightarrow> None
                | Some e \<Rightarrow> Some (snd e)))"
proof (cases "k \<in> set objectPrototypeKeys")
  case True
  then show ?thesis
    by (simp add: mergeDocs_inherited)
next
  case False
  define es where "es = concat (map docEntries docs)"
  have ns: "notSet Map.empty k"
    using False by (rule notSet_empty)
  show ?thesis
  proof (cases "find (\<lambda>e. fst e = k \<and> truthy (snd e)) es")
    case None
    then have "\<forall>v. (k, v) \<in> set es \<longrightarrow> \<not> truthy v"
      by (auto simp: find_None_iff)
    then have "fold mergeEntry es Map.empty k =
        (case find (\<lambda>e. fst e = k \<and> snd e \<noteq> JNull) (rev es) of
           None \<Rightarrow> Map.empty k
         | Some e \<Rightarrow> Some (snd e))"
      using ns by (intro fold_mergeEntry_no_truthy)
    then show ?thesis
      using False None by (simp add: mergeDocs_flat es_def)
  next
    case (Some e)
    then have "find (\<lambda>e. fst e = k \<and> truthy (snd e)) es = Some (fst e, snd e)"
      by simp
    then have "fold mergeEntry es Map.empty k = Some (snd e)"
      using ns by (intro fold_mergeEntry_first_truthy)
    then show ?thesis
      using False Some by (simp add: mergeDocs_flat es_def)
  qed
qed

text \<open>
  Claim C9. As stated, parsing discards every field outside the vocabulary and coerces
  to null every value of an unexpected type, never crashing the caller. The source has
  no filter and no coercion. What holds, for a text with a match: when \<open>JSON.parse\<close>
  throws, or when the database update that follows it fails, the exception is caught and
  the document carries an error and no analysis; when \<open>JSON.parse\<close> returns and the
  update succeeds, the analysis is the value returned, as it is. The merge skips the
  first kind of document and visits every property of the second, whatever its name and
  the type of its value. Then, over any batch, a name that \<open>Object.prototype\<close> defines is
  never merged; for every other name the merged value is the first truthy value among
  the properties visited, in order, or, when none is truthy, the last one that is not
  null, or none.
\<close>

theorem C9_parsed_value_kept_as_is:
  "jsonMatch str = Some m \<Longrightarrow>
   (jsonParse (trim (jsonStr m)) = None \<or> \<not> dbOk \<longrightarrow>
      processText jsonParse dbOk did fname str = parseFailedDoc did fname str \<and>
      docEntries (parseFailedDoc did fname str) = []) \<and>
   (\<forall>a. jsonParse (trim (jsonStr m)) = Some a \<and> dbOk \<longrightarrow>
      processText jsonParse dbOk did fname str = analysedDoc did fname a \<and>
      docEntries (analysedDoc did fname a) = (if truthy a then objectEntries a else [])) \<and>
   (\<forall>kvs. objectEntries (JObj kvs) = kvs \<and> truthy (JObj kvs)) \<and>
   (\<forall>docs k. mergeDocs docs k =
      (if k \<in> set objectPrototypeKeys then None
       else case find (\<lambda>e. fst e = k \<and> truthy (snd e)) (concat (map docEntries docs)) of
              Some e \<Rightarrow> Some (snd e)
            | None \<Rightarrow>
                (case find (\<lambda>e. fst e = k \<and> snd e \<noteq> JNull)
                        (rev (concat (map docEntries docs))) of
                   None \<Rightarrow> None
                 | Some e \<Rightarrow> Some (snd e))))"
proof -
  assume m: "jsonMatch str = Some m"
  have failed: "jsonParse (trim (jsonStr m)) = None \<or> \<not> dbOk \<longrightarrow>
      processText jsonParse dbOk did fname str = parseFailedDoc did fname str \<and>
      docEntries (parseFailedDoc did fname str) = []"
    using processText_parse_throws [OF m] processText_db_failed docEntries_failed by metis
  have kept: "\<forall>a. jsonParse (trim (jsonStr m)) = Some a \<and> dbOk \<longrightarrow>
      processText jsonParse dbOk did fname str = analysedDoc did fname a \<and>
      docEntries (analysedDoc did fname a) = (if truthy a then objectEntries a else [])"
    using processText_kept [OF m] docEntries_analysed by blast
  have obj: "\<forall>kvs. objectEntries (JObj kvs) = kvs \<and> truthy (JObj kvs)"
    by simp
  show ?thesis
    using failed kept obj mergeDocs_value by blast
qed

text \<open>
  C9 at a text with a JSON object after some prose: the analysis is the parsed object
  and the field employer is merged; at the same text when the database update fails; at
  a text on which the parser throws; and at a batch whose second document has a property
  named constructor.
\<close>

theorem C9_parsed_value_witness:
  "jsonMatch (''Here is the data: '' @ exampleJson) =
     Some \<lparr>whole = exampleJson, group1 = None\<rparr> \<and>
   processText exampleParse True ''A'' ''w2.pdf'' (''Here is the data: '' @ exampleJson) =
     analysedDoc ''A'' ''w2.pdf''
       (JObj [(''employer'', JStr ''ACME''), (''wages'', JStr ''75,000''),
              (''interest'', JNum 1200)]) \<and>
   processText exampleParse False ''A'' ''w2.pdf'' (''Here is the data: '' @ exampleJson) =
     parseFailedDoc ''A'' ''w2.pdf'' (''Here is the data: '' @ exampleJson) \<and>
   jsonMatch ''{oops}'' = Some \<lparr>whole = ''{oops}'', group1 = None\<rparr> \<and>
   exampleParse ''{oops}'' = None \<and>
   processText exampleParse True ''B'' ''blank.pdf'' ''{oops}'' =
     parseFailedDoc ''B'' ''blank.pdf'' ''{oops}'' \<and>
   mergeDocs
     [analysedDoc ''A'' ''w2.pdf''
        (JObj [(''employer'', JStr ''ACME''), (''wages'', JStr ''75,000''),
               (''interest'', JNum 1200)]),
      analysedDoc ''C'' ''c.pdf'' (JObj [(''constructor'', JStr ''x''), (''wages'', JNum 5)])]
     ''employer'' = Some (JStr ''ACME'') \<and>
   mergeDocs
     [analysedDoc ''A'' ''w2.pdf''
        (JObj [(''employer'', JStr ''ACME''), (''wages'', JStr ''75,000''),
               (''interest'', JNum 1200)]),
      analysedDoc ''C'' ''c.pdf'' (JObj [(''constructor'', JStr ''x''), (''wages'', JNum 5)])]
     ''wages'' = Some (JStr ''75,000'') \<and>
   mergeDocs
     [analysedDoc ''A'' ''w2.pdf''
        (JObj [(''employer'', JStr ''ACME''), (''wages'', JStr ''75,000''),
               (''interest'', JNum 1200)]),
      analysedDoc ''C'' ''c.pdf'' (JObj [(''constructor'', JStr ''x''), (''wages'', JNum 5)])]
     ''constructor'' = None"
proof -
  let ?kvs =
    "[(''employer'', JStr ''ACME''), (''wages'', JStr ''75,000''), (''interest'', JNum 1200)]"
  let ?docs = "[analysedDoc ''A'' ''w2.pdf'' (JObj ?kvs),
      analysedDoc ''C'' ''c.pdf'' (JObj [(''constructor'', JStr ''x''), (''wages'', JNum 5)])]"
  have m: "jsonMatch (''Here is the data: '' @ exampleJson) =
      Some \<lparr>whole = exampleJson, group1 = None\<rparr>"
    by (simp add: text_eval exampleJson_def)
  have parsed:
    "exampleParse (trim (jsonStr \<lparr>whole = exampleJson, group1 = None\<rparr>)) = Some (JObj ?kvs)"
    by (simp add: trim_exampleJson jsonStr_def exampleParse_def)
  note ok = C9_parsed_value_kept_as_is [OF m, of exampleParse True "''A''" "''w2.pdf''"]
  note db = C9_parsed_value_kept_as_is [OF m, of exampleParse False "''A''" "''w2.pdf''"]
  have kept:
    "processText exampleParse True ''A'' ''w2.pdf'' (''Here is the data: '' @ exampleJson) =
       analysedDoc ''A'' ''w2.pdf'' (JObj ?kvs)"
    using ok parsed by blast
  have dropped:
    "processText exampleParse False ''A'' ''w2.pdf'' (''Here is the data: '' @ exampleJson) =
       parseFailedDoc ''A'' ''w2.pdf'' (''Here is the data: '' @ exampleJson)"
    using db by blast
  have m2: "jsonMatch ''{oops}'' = Some \<lparr>whole = ''{oops}'', group1 = None\<rparr>"
    by (simp add: text_eval)
  have t2: "trim (jsonStr \<lparr>whole = ''{oops}'', group1 = None\<rparr>) = ''{oops}''"
    by (simp add: text_eval)
  have throws: "exampleParse ''{oops}'' = None"
    by (simp add: exampleParse_def exampleJson_def)
  have failed: "processText exampleParse True ''B'' ''blank.pdf'' ''{oops}'' =
      parseFailedDoc ''B'' ''blank.pdf'' ''{oops}''"
    using C9_parsed_value_kept_as_is [OF m2, of exampleParse True "''B''" "''blank.pdf''"]
      throws t2 by simp
  have es: "concat (map docEntries ?docs) =
      ?kvs @ [(''constructor'', JStr ''x''), (''wages'', JNum 5)]"
    by (simp add: docEntries_def mergeable_def analysedDoc_def)
  have v: "mergeDocs ?docs k =
      (if k \<in> set objectPrototypeKeys then None
       else case find (\<lambda>e. fst e = k \<and> truthy (snd e)) (concat (map docEntries ?docs)) of
              Some e \<Rightarrow> Some (snd e)
            | None \<Rightarrow>
                (case find (\<lambda>e. fst e = k \<and> snd e \<noteq> JNull)
                        (rev (concat (map docEntries ?docs))) of
                   None \<Rightarrow> None
                 | Some e \<Rightarrow> Some (snd e)))" for k
    using ok by blast
  have e: "mergeDocs ?docs ''employer'' = Some (JStr ''ACME'')"
    unfolding v es by (simp add: objectPrototypeKeys_def)
  have w: "mergeDocs ?docs ''wages'' = Some (JStr ''75,000'')"
    unfolding v es by (simp add: objectPrototypeKeys_def)
  have c: "mergeDocs ?docs ''constructor'' = None"
    unfolding v es by (simp add: objectPrototypeKeys_def)
  show ?thesis
    using m kept dropped m2 throws failed e w c by blast
qed

text \<open>
  C9 as stated fails: the model's text holds a JSON object with a field employer, which
  is not in the vocabulary, and with wages given as a string; the analysis keeps both as
  they are, and so does the merged record.
\<close>

theorem C9_unknown_field_kept_counterexample:
  "''employer'' \<notin> set fieldVocabulary \<and>
   processText exampleParse True ''A'' ''w2.pdf''
     (''Here is the data: '' @ exampleJson @ '' Let me know if you need more.'') =
     analysedDoc ''A'' ''w2.pdf''
       (JObj [(''employer'', JStr ''ACME''), (''wages'', JStr ''75,000''),
              (''interest'', JNum 1200)]) \<and>
   mergeDocs [processText exampleParse True ''A'' ''w2.pdf''
     (''Here is the data: '' @ exampleJson @ '' Let me know if you need more.'')] ''employer'' =
     Some (JStr ''ACME'') \<and>
   mergeDocs [processText exampleParse True ''A'' ''w2.pdf''
     (''Here is the data: '' @ exampleJson @ '' Let me know if you need more.'')] ''wages'' =
     Some (JStr ''75,000'')"
proof -
  have m: "jsonMatch (''Here is the data: '' @ exampleJson @ '' Let me know if you need more.'') =
      Some \<lparr>whole = exampleJson, group1 = None\<rparr>"
    by (simp add: text_eval exampleJson_def)
  have p: "processText exampleParse True ''A'' ''w2.pdf''
     (''Here is the data: '' @ exampleJson @ '' Let me know if you need more.'') =
     analysedDoc ''A'' ''w2.pdf''
       (JObj [(''employer'', JStr ''ACME''), (''wages'', JStr ''75,000''),
              (''interest'', JNum 1200)])"
    by (rule processText_parsed [OF m]) (simp add: trim_exampleJson jsonStr_def exampleParse_def)
  show ?thesis
    unfolding p by (simp add: merge_eval fieldVocabulary_def)
qed

end
